theory Spec2Isabelle
  imports
    Main
    "HOL-Library.Char_ord"
    "HOL-Library.List_Lexorder"
    "HOL-Library.Product_Lexorder"
    "HOL-Library.Multiset"
begin

section \<open>Machine numbers\<close>

text \<open>
  Go's \<open>int64\<close> is modelled by \<open>int\<close>; the places where the source adds or subtracts
  two \<open>int64\<close> values go through \<open>wrap64\<close>, the two's complement wrap-around.
\<close>

definition wrap64 :: "int \<Rightarrow> int" where
  "wrap64 x = (x + 2 ^ 63) mod 2 ^ 64 - 2 ^ 63"

text \<open>
  The sorted sets of Redis hold \<open>float64\<close> scores. Every score this program stores is
  \<open>float64(score)\<close> for an \<open>int64\<close> score, hence an integer, and is modelled by the
  integer it denotes. \<open>float64_of_int64\<close> is the conversion \<open>float64(score)\<close>: a
  \<open>float64\<close> has a 53 bit significand, so an integer of magnitude below \<open>2 ^ 53\<close> is
  kept, and a larger one is rounded to the nearest multiple of the spacing
  \<open>2 ^ float64_shift\<close> of its binade, a tie going to the even significand.
\<close>

definition float64_shift :: "int \<Rightarrow> nat" where
  "float64_shift a = length (filter (\<lambda>k. 2 ^ (53 + k) \<le> a) [0..<11])"

definition float64_of_int64 :: "int \<Rightarrow> int" where
  "float64_of_int64 n =
     (let a = \<bar>n\<bar>;
          e = float64_shift a;
          q = a div 2 ^ e;
          r = a mod 2 ^ e;
          q' = (if 2 * r > 2 ^ e \<or> (2 * r = 2 ^ e \<and> odd q) then q + 1 else q)
      in sgn n * (q' * 2 ^ e))"

text \<open>
  \<open>int64_of_float64\<close> is the conversion \<open>int64(score)\<close> of an integral \<open>float64\<close>. It is
  exact inside the range of \<open>int64\<close>; outside of it Go leaves the result to the
  implementation, and the value written here is the one of amd64.
\<close>

definition int64_of_float64 :: "int \<Rightarrow> int" where
  "int64_of_float64 v = (if - (2 ^ 63) \<le> v \<and> v < 2 ^ 63 then v else - (2 ^ 63))"

section \<open>Data model (internal/model/leaderboard.go)\<close>

type_synonym SortOrder = string

definition SortOrderDesc :: SortOrder where
  "SortOrderDesc = ''desc''"

definition SortOrderAsc :: SortOrder where
  "SortOrderAsc = ''asc''"

text \<open>
  The records keep the fields the ranking code reads or writes. Times are instants on a
  discrete clock. The identifier assigned by the database, the free-form metadata and the
  configuration details of a leaderboard take no part in the operations below.
\<close>

record Leaderboard =
  lb_LeaderboardID :: string
  lb_Name :: string
  lb_GameID :: string
  lb_SortOrder :: SortOrder
  lb_MaxEntries :: int
  lb_IsActive :: bool

record ScoreRecord =
  sr_LeaderboardID :: string
  sr_UserID :: string
  sr_Score :: int
  sr_PreviousScore :: int
  sr_Source :: string
  sr_SubmittedAt :: nat
  sr_CreatedAt :: nat

record RankingEntry =
  re_UserID :: string
  re_Score :: int
  re_Rank :: int
  re_UpdatedAt :: nat

definition RedisKeyLeaderboard :: string where
  "RedisKeyLeaderboard = ''leaderboard:''"

definition RedisKeyLeaderboardConfig :: string where
  "RedisKeyLeaderboardConfig = ''leaderboard_config:''"

definition RedisKeyRankingLock :: string where
  "RedisKeyRankingLock = ''ranking_lock:''"

text \<open>\<open>GetRedisKey\<close> with one argument: the template ends in its only \<open>%s\<close>.\<close>

definition GetRedisKey :: "string \<Rightarrow> string \<Rightarrow> string" where
  "GetRedisKey template arg = template @ arg"

section \<open>Errors\<close>

text \<open>
  \<open>DriverError\<close> is any error a call to Redis or MongoDB returns (network, timeout,
  decoding). The other constructors are the errors the source creates itself;
  \<open>Wrapped\<close> is \<open>fmt.Errorf("...: %w", err)\<close> with the context named in English.
\<close>

datatype context_msg =
    GetLeaderboardFailed | GetConfigFailed | SaveRecordFailed | GetDataFailed
  | GetUserScoreFailed | GetUserRankFailed | AroundUserFailed | AcquireLockFailed
  | ClearCacheFailed | GetRecordsFailed | BatchSetFailed
  | CacheSetScore | CacheGetScore | CacheGetRank | CacheGetTop | CacheAround
  | CacheSize | CacheClear | CacheSetConfig | CacheGetConfig | CacheBatchSet
  | CacheLock | CacheUnlock
  | RepoGetLeaderboard | RepoCreateScore | RepoGetUserScore | RepoTopScores | RepoRank

datatype error =
    DriverError
  | LeaderboardNotFound string
  | NoScoreRecord
  | UserNotInLeaderboard
  | RebuildInProgress
  | Wrapped context_msg error

section \<open>Environment and state\<close>

text \<open>
  What a run depends on besides the stored data is gathered in an environment:
  \<^item> \<open>fails\<close> tells, for each place where the service reaches Redis or MongoDB, whether
    that call returns an error;
  \<^item> \<open>now\<close> is the reading of \<open>time.Now()\<close>;
  \<^item> \<open>swapped\<close> tells, for each \<open>$sort\<close> stage written as a \<open>bson.M\<close> with two keys,
    whether the two keys reach the server in the opposite order: \<open>bson.M\<close> is a Go map,
    the driver encodes its entries in the order the map is iterated, and Go leaves that
    order unspecified;
  \<^item> \<open>map_order\<close> is the order in which \<open>range\<close> goes through a \<open>map[string]int64\<close>,
    given as a function on the entries of the map.
\<close>

datatype site =
    CfgGet | CfgFind | CfgSet
  | FindScore | PrevRank | InsertScore | ZAddScore | NewRank
  | ZScoreCall | ZRankCall | RepoFindScore | Aggregate
  | ZRangeCall | ZCardCall | PipeExec
  | LockSetNX | ClearDel | UnlockDel

datatype sort_stage = LatestSort | FinalSort

record env =
  fails :: "site \<Rightarrow> bool"
  now :: nat
  swapped :: "sort_stage \<Rightarrow> bool"
  map_order :: "(string \<times> int) list \<Rightarrow> (string \<times> int) list"

text \<open>
  A sorted set of Redis is the list of its (score, member) pairs in ascending order of
  score, members of equal score in ascending byte order, each member once. A key that does
  not exist is the empty sorted set. The state holds the two MongoDB collections in
  insertion order, and the three families of Redis keys the service uses. The expiry of
  keys and of score records depends on real time and is not part of the state; the
  \<open>user_rank\<close> keys that \<open>SetScore\<close> also writes are never read back and are left out.
\<close>

type_synonym zset = "(int \<times> string) list"

record state =
  leaderboards :: "Leaderboard list"
  score_records :: "ScoreRecord list"
  zsets :: "string \<Rightarrow> zset"
  config_cache :: "string \<rightharpoonup> Leaderboard"
  locks :: "string \<Rightarrow> bool"

section \<open>Redis commands on a sorted set\<close>

definition zadd :: "string \<Rightarrow> int \<Rightarrow> zset \<Rightarrow> zset" where
  "zadd member score z = insort (score, member) (filter (\<lambda>p. snd p \<noteq> member) z)"

definition zscore :: "zset \<Rightarrow> string \<Rightarrow> int option" where
  "zscore z member = map_option fst (find (\<lambda>p. snd p = member) z)"

fun index_of :: "(string \<Rightarrow> bool) \<Rightarrow> string list \<Rightarrow> nat option" where
  "index_of P [] = None"
| "index_of P (m # ms) = (if P m then Some 0 else map_option Suc (index_of P ms))"

definition zrank :: "zset \<Rightarrow> string \<Rightarrow> int option" where
  "zrank z member = map_option int (index_of (\<lambda>m. m = member) (map snd z))"

definition zrevrank :: "zset \<Rightarrow> string \<Rightarrow> int option" where
  "zrevrank z member = map_option int (index_of (\<lambda>m. m = member) (map snd (rev z)))"

text \<open>
  \<open>ZRANGE key start stop\<close> on a list: a negative index counts from the end, the range is
  inclusive, and it is cut to the list.
\<close>

definition range_by_rank :: "'a list \<Rightarrow> int \<Rightarrow> int \<Rightarrow> 'a list" where
  "range_by_rank xs start stop =
     (let llen = int (length xs);
          start1 = (if start < 0 then llen + start else start);
          stop1 = (if stop < 0 then llen + stop else stop);
          start2 = (if start1 < 0 then 0 else start1)
      in if start2 > stop1 \<or> start2 \<ge> llen then []
         else let stop2 = (if stop1 \<ge> llen then llen - 1 else stop1)
              in take (nat (stop2 - start2 + 1)) (drop (nat start2) xs))"

definition zrange :: "zset \<Rightarrow> int \<Rightarrow> int \<Rightarrow> zset" where
  "zrange z start stop = range_by_rank z start stop"

definition zrevrange :: "zset \<Rightarrow> int \<Rightarrow> int \<Rightarrow> zset" where
  "zrevrange z start stop = range_by_rank (rev z) start stop"

section \<open>The Redis client wrappers (package redis, Client)\<close>

text \<open>
  Each wrapper takes the flag \<open>fail\<close> of its call. \<open>ZRank\<close>, \<open>ZRevRank\<close>, \<open>ZScore\<close>
  and \<open>Get\<close> turn the reply \<open>redis.Nil\<close> of a missing member or key into \<open>-1\<close>, \<open>0\<close>
  and the empty string, without an error.
\<close>

definition client_ZScore :: "bool \<Rightarrow> zset \<Rightarrow> string \<Rightarrow> error + int" where
  "client_ZScore fail z member =
     (if fail then Inl DriverError
      else case zscore z member of None \<Rightarrow> Inr 0 | Some v \<Rightarrow> Inr v)"

definition client_ZRank :: "bool \<Rightarrow> zset \<Rightarrow> string \<Rightarrow> error + int" where
  "client_ZRank fail z member =
     (if fail then Inl DriverError
      else case zrank z member of None \<Rightarrow> Inr (- 1) | Some r \<Rightarrow> Inr r)"

definition client_ZRevRank :: "bool \<Rightarrow> zset \<Rightarrow> string \<Rightarrow> error + int" where
  "client_ZRevRank fail z member =
     (if fail then Inl DriverError
      else case zrevrank z member of None \<Rightarrow> Inr (- 1) | Some r \<Rightarrow> Inr r)"

definition client_ZRangeWithScores :: "bool \<Rightarrow> zset \<Rightarrow> int \<Rightarrow> int \<Rightarrow> error + zset" where
  "client_ZRangeWithScores fail z start stop =
     (if fail then Inl DriverError else Inr (zrange z start stop))"

definition client_ZRevRangeWithScores :: "bool \<Rightarrow> zset \<Rightarrow> int \<Rightarrow> int \<Rightarrow> error + zset" where
  "client_ZRevRangeWithScores fail z start stop =
     (if fail then Inl DriverError else Inr (zrevrange z start stop))"

section \<open>The ranking cache (internal/repository/redis/leaderboard_cache.go)\<close>

text \<open>
  A function that writes returns its result together with the state. A failed call leaves
  the state as it was.
\<close>

definition redis_SetScore ::
  "bool \<Rightarrow> state \<Rightarrow> string \<Rightarrow> string \<Rightarrow> int \<Rightarrow> (error + unit) \<times> state" where
  "redis_SetScore fail s leaderboardID userID score =
     (let key = GetRedisKey RedisKeyLeaderboard leaderboardID
      in if fail then (Inl (Wrapped CacheSetScore DriverError), s)
         else (Inr (),
               s\<lparr>zsets := (zsets s)(key := zadd userID (float64_of_int64 score) (zsets s key))\<rparr>))"

definition redis_GetScore :: "bool \<Rightarrow> state \<Rightarrow> string \<Rightarrow> string \<Rightarrow> error + int" where
  "redis_GetScore fail s leaderboardID userID =
     (let key = GetRedisKey RedisKeyLeaderboard leaderboardID
      in case client_ZScore fail (zsets s key) userID of
           Inl e \<Rightarrow> Inl (Wrapped CacheGetScore e)
         | Inr score \<Rightarrow> Inr (int64_of_float64 score))"

text \<open>
  A sorted set of Redis has fewer than \<open>2 ^ 32\<close> members, so the arithmetic on ranks
  below stays far from the bounds of \<open>int64\<close> and is written without \<open>wrap64\<close>.
\<close>

definition redis_GetRank ::
  "bool \<Rightarrow> state \<Rightarrow> string \<Rightarrow> string \<Rightarrow> SortOrder \<Rightarrow> error + int" where
  "redis_GetRank fail s leaderboardID userID sortOrder =
     (let key = GetRedisKey RedisKeyLeaderboard leaderboardID;
          res = (if sortOrder = SortOrderDesc
                 then client_ZRevRank fail (zsets s key) userID
                 else client_ZRank fail (zsets s key) userID)
      in case res of
           Inl e \<Rightarrow> Inl (Wrapped CacheGetRank e)
         | Inr rank \<Rightarrow> if rank = - 1 then Inr 0 else Inr (rank + 1))"

text \<open>The loop over the members of a range: the \<open>i\<close>-th one gets rank \<open>first + i\<close>.\<close>

fun ranked_from :: "nat \<Rightarrow> int \<Rightarrow> zset \<Rightarrow> RankingEntry list" where
  "ranked_from t first [] = []"
| "ranked_from t first (m # ms) =
     \<lparr>re_UserID = snd m, re_Score = int64_of_float64 (fst m), re_Rank = first,
      re_UpdatedAt = t\<rparr> # ranked_from t (first + 1) ms"

definition redis_GetTopRankings ::
  "bool \<Rightarrow> nat \<Rightarrow> state \<Rightarrow> string \<Rightarrow> int \<Rightarrow> SortOrder \<Rightarrow> error + RankingEntry list" where
  "redis_GetTopRankings fail t s leaderboardID limit sortOrder =
     (let key = GetRedisKey RedisKeyLeaderboard leaderboardID;
          res = (if sortOrder = SortOrderDesc
                 then client_ZRevRangeWithScores fail (zsets s key) 0 (wrap64 (limit - 1))
                 else client_ZRangeWithScores fail (zsets s key) 0 (wrap64 (limit - 1)))
      in case res of
           Inl e \<Rightarrow> Inl (Wrapped CacheGetTop e)
         | Inr members \<Rightarrow> Inr (ranked_from t 1 members))"

text \<open>Go's \<open>count / 2\<close> truncates towards zero.\<close>

definition half_of :: "int \<Rightarrow> int" where
  "half_of cnt = (if cnt < 0 then - ((- cnt) div 2) else cnt div 2)"

definition redis_GetRankingsAroundUser ::
  "bool \<Rightarrow> bool \<Rightarrow> nat \<Rightarrow> state \<Rightarrow> string \<Rightarrow> string \<Rightarrow> int \<Rightarrow> SortOrder
     \<Rightarrow> error + RankingEntry list" where
  "redis_GetRankingsAroundUser fail_rank fail_range t s leaderboardID userID cnt sortOrder =
     (case redis_GetRank fail_rank s leaderboardID userID sortOrder of
        Inl e \<Rightarrow> Inl e
      | Inr userRank \<Rightarrow>
          if userRank = 0 then Inl UserNotInLeaderboard
          else
            let half = half_of cnt;
                start0 = userRank - half - 1;
                stop = userRank + half - 1;
                start = (if start0 < 0 then 0 else start0);
                key = GetRedisKey RedisKeyLeaderboard leaderboardID;
                res = (if sortOrder = SortOrderDesc
                       then client_ZRevRangeWithScores fail_range (zsets s key) start stop
                       else client_ZRangeWithScores fail_range (zsets s key) start stop)
            in (case res of
                  Inl e \<Rightarrow> Inl (Wrapped CacheAround e)
                | Inr members \<Rightarrow> Inr (ranked_from t (start + 1) members)))"

definition redis_GetLeaderboardSize :: "bool \<Rightarrow> state \<Rightarrow> string \<Rightarrow> error + int" where
  "redis_GetLeaderboardSize fail s leaderboardID =
     (let key = GetRedisKey RedisKeyLeaderboard leaderboardID
      in if fail then Inl (Wrapped CacheSize DriverError)
         else Inr (int (length (zsets s key))))"

definition redis_ClearLeaderboard :: "bool \<Rightarrow> state \<Rightarrow> string \<Rightarrow> (error + unit) \<times> state" where
  "redis_ClearLeaderboard fail s leaderboardID =
     (let key = GetRedisKey RedisKeyLeaderboard leaderboardID
      in if fail then (Inl (Wrapped CacheClear DriverError), s)
         else (Inr (), s\<lparr>zsets := (zsets s)(key := [])\<rparr>))"

text \<open>
  The configuration is cached as JSON; the cache is modelled by the value the JSON text
  decodes to.
\<close>

definition redis_SetLeaderboardConfig ::
  "bool \<Rightarrow> state \<Rightarrow> Leaderboard \<Rightarrow> (error + unit) \<times> state" where
  "redis_SetLeaderboardConfig fail s leaderboard =
     (let key = GetRedisKey RedisKeyLeaderboardConfig (lb_LeaderboardID leaderboard)
      in if fail then (Inl (Wrapped CacheSetConfig DriverError), s)
         else (Inr (), s\<lparr>config_cache := (config_cache s)(key \<mapsto> leaderboard)\<rparr>))"

definition redis_GetLeaderboardConfig ::
  "bool \<Rightarrow> state \<Rightarrow> string \<Rightarrow> error + Leaderboard option" where
  "redis_GetLeaderboardConfig fail s leaderboardID =
     (let key = GetRedisKey RedisKeyLeaderboardConfig leaderboardID
      in if fail then Inl (Wrapped CacheGetConfig DriverError)
         else Inr (config_cache s key))"

text \<open>
  \<open>BatchSetScores\<close> queues one \<open>ZADD\<close> for each entry of the map, in the order \<open>range\<close>
  goes through it, and sends the queue with \<open>Exec\<close>.
\<close>

definition redis_BatchSetScores ::
  "bool \<Rightarrow> ((string \<times> int) list \<Rightarrow> (string \<times> int) list) \<Rightarrow> state \<Rightarrow> string
     \<Rightarrow> (string \<times> int) list \<Rightarrow> (error + unit) \<times> state" where
  "redis_BatchSetScores fail order s leaderboardID scores =
     (let key = GetRedisKey RedisKeyLeaderboard leaderboardID
      in if fail then (Inl (Wrapped CacheBatchSet DriverError), s)
         else (Inr (),
               s\<lparr>zsets := (zsets s)(key :=
                    fold (\<lambda>p z. zadd (fst p) (float64_of_int64 (snd p)) z)
                      (order scores) (zsets s key))\<rparr>))"

definition redis_AcquireLock :: "bool \<Rightarrow> state \<Rightarrow> string \<Rightarrow> (error + bool) \<times> state" where
  "redis_AcquireLock fail s leaderboardID =
     (let key = GetRedisKey RedisKeyRankingLock leaderboardID
      in if fail then (Inl (Wrapped CacheLock DriverError), s)
         else if locks s key then (Inr False, s)
         else (Inr True, s\<lparr>locks := (locks s)(key := True)\<rparr>))"

definition redis_ReleaseLock :: "bool \<Rightarrow> state \<Rightarrow> string \<Rightarrow> (error + unit) \<times> state" where
  "redis_ReleaseLock fail s leaderboardID =
     (let key = GetRedisKey RedisKeyRankingLock leaderboardID
      in if fail then (Inl (Wrapped CacheUnlock DriverError), s)
         else (Inr (), s\<lparr>locks := (locks s)(key := False)\<rparr>))"

section \<open>The score history (internal/repository/mongodb/mongodb.go)\<close>

subsection \<open>Stages of an aggregation pipeline\<close>

text \<open>
  \<open>$sort\<close> orders the documents by its first key and, among equal ones, by its second
  key. Documents equal in both keys keep the order they came in; MongoDB promises no order
  for them. A descending key is an ascending negated key. The flag says whether the two
  keys of the \<open>bson.M\<close> arrive swapped.
\<close>

definition sort_user_submitted :: "bool \<Rightarrow> ScoreRecord list \<Rightarrow> ScoreRecord list" where
  "sort_user_submitted swap rs =
     (if swap then sort_key (\<lambda>r. (- int (sr_SubmittedAt r), sr_UserID r)) rs
      else sort_key (\<lambda>r. (sr_UserID r, - int (sr_SubmittedAt r))) rs)"

definition sort_score_submitted :: "bool \<Rightarrow> int \<Rightarrow> ScoreRecord list \<Rightarrow> ScoreRecord list" where
  "sort_score_submitted swap sortValue rs =
     (if swap then sort_key (\<lambda>r. (- int (sr_SubmittedAt r), sortValue * sr_Score r)) rs
      else sort_key (\<lambda>r. (sortValue * sr_Score r, - int (sr_SubmittedAt r))) rs)"

text \<open>
  \<open>$group\<close> by \<open>user_id\<close> with a \<open>$first\<close> accumulator keeps, for each user, the first
  document of the incoming order. The groups are listed in the order of their first
  document.
\<close>

fun group_first :: "string list \<Rightarrow> ScoreRecord list \<Rightarrow> ScoreRecord list" where
  "group_first seen [] = []"
| "group_first seen (r # rs) =
     (if sr_UserID r \<in> set seen then group_first seen rs
      else r # group_first (sr_UserID r # seen) rs)"

text \<open>
  The documents that leave the \<open>$group\<close> stage of \<open>GetUserRank\<close> have the two fields
  \<open>_id\<close> and \<open>latest_score\<close>. They and the \<open>$match\<close> stage after them are modelled
  with named fields: a condition on a field the document does not have is not met, and
  \<open>$gt\<close> and \<open>$lt\<close> compare values of one type only.
\<close>

datatype bson = BString string | BInt64 int

type_synonym document = "(string \<times> bson) list"

datatype condition = Equals bson | Gt bson | Lt bson

fun holds :: "condition \<Rightarrow> bson \<Rightarrow> bool" where
  "holds (Equals v) w = (w = v)"
| "holds (Gt (BInt64 v)) (BInt64 w) = (w > v)"
| "holds (Gt (BString v)) (BString w) = (w > v)"
| "holds (Lt (BInt64 v)) (BInt64 w) = (w < v)"
| "holds (Lt (BString v)) (BString w) = (w < v)"
| "holds c w = False"

definition matches :: "(string \<times> condition) list \<Rightarrow> document \<Rightarrow> bool" where
  "matches conds doc =
     list_all (\<lambda>(field, c). case map_of doc field of None \<Rightarrow> False | Some w \<Rightarrow> holds c w) conds"

definition group_latest_score :: "ScoreRecord list \<Rightarrow> document list" where
  "group_latest_score rs =
     map (\<lambda>r. [(''_id'', BString (sr_UserID r)), (''latest_score'', BInt64 (sr_Score r))])
       (group_first [] rs)"

text \<open>\<open>$count\<close> emits one document with the count, and no document for an empty input.\<close>

definition count_stage :: "string \<Rightarrow> document list \<Rightarrow> document list" where
  "count_stage name docs = (if docs = [] then [] else [[(name, BInt64 (int (length docs)))]])"

subsection \<open>The repository functions\<close>

definition mongodb_GetLeaderboard :: "bool \<Rightarrow> state \<Rightarrow> string \<Rightarrow> error + Leaderboard" where
  "mongodb_GetLeaderboard fail s leaderboardID =
     (if fail then Inl (Wrapped RepoGetLeaderboard DriverError)
      else case find (\<lambda>l. lb_LeaderboardID l = leaderboardID \<and> lb_IsActive l) (leaderboards s) of
             None \<Rightarrow> Inl (LeaderboardNotFound leaderboardID)
           | Some l \<Rightarrow> Inr l)"

definition mongodb_CreateScoreRecord ::
  "bool \<Rightarrow> nat \<Rightarrow> state \<Rightarrow> ScoreRecord \<Rightarrow> (error + unit) \<times> state" where
  "mongodb_CreateScoreRecord fail t s record =
     (let record1 = record\<lparr>sr_CreatedAt := t\<rparr>;
          record2 = (if sr_SubmittedAt record1 = 0 then record1\<lparr>sr_SubmittedAt := t\<rparr>
                     else record1)
      in if fail then (Inl (Wrapped RepoCreateScore DriverError), s)
         else (Inr (), s\<lparr>score_records := score_records s @ [record2]\<rparr>))"

definition mongodb_GetUserScore ::
  "bool \<Rightarrow> state \<Rightarrow> string \<Rightarrow> string \<Rightarrow> error + ScoreRecord option" where
  "mongodb_GetUserScore fail s leaderboardID userID =
     (if fail then Inl (Wrapped RepoGetUserScore DriverError)
      else case sort_key (\<lambda>r. - int (sr_SubmittedAt r))
                  (filter (\<lambda>r. sr_LeaderboardID r = leaderboardID \<and> sr_UserID r = userID)
                     (score_records s)) of
             [] \<Rightarrow> Inr None
           | r # rs \<Rightarrow> Inr (Some r))"

definition mongodb_GetTopScores ::
  "bool \<Rightarrow> (sort_stage \<Rightarrow> bool) \<Rightarrow> state \<Rightarrow> string \<Rightarrow> int \<Rightarrow> SortOrder
     \<Rightarrow> error + ScoreRecord list" where
  "mongodb_GetTopScores fail swap s leaderboardID limit sortOrder =
     (let matched = filter (\<lambda>r. sr_LeaderboardID r = leaderboardID) (score_records s);
          latest = group_first [] (sort_user_submitted (swap LatestSort) matched);
          sortValue = (if sortOrder = SortOrderAsc then 1 else - 1);
          sorted = sort_score_submitted (swap FinalSort) sortValue latest;
          limited = (if limit > 0 then take (nat limit) sorted else sorted)
      in if fail then Inl (Wrapped RepoTopScores DriverError) else Inr limited)"

definition mongodb_GetUserRank ::
  "bool \<Rightarrow> bool \<Rightarrow> (sort_stage \<Rightarrow> bool) \<Rightarrow> state \<Rightarrow> string \<Rightarrow> string \<Rightarrow> SortOrder
     \<Rightarrow> error + int" where
  "mongodb_GetUserRank fail_find fail_aggregate swap s leaderboardID userID sortOrder =
     (case mongodb_GetUserScore fail_find s leaderboardID userID of
        Inl e \<Rightarrow> Inl e
      | Inr None \<Rightarrow> Inl NoScoreRecord
      | Inr (Some userRecord) \<Rightarrow>
          let matchCondition =
                [(''leaderboard_id'', Equals (BString leaderboardID)),
                 (''score'', if sortOrder = SortOrderDesc then Gt (BInt64 (sr_Score userRecord))
                             else Lt (BInt64 (sr_Score userRecord)))];
              matched = filter (\<lambda>r. sr_LeaderboardID r = leaderboardID) (score_records s);
              grouped = group_latest_score (sort_user_submitted (swap LatestSort) matched);
              counted = count_stage ''rank'' (filter (matches matchCondition) grouped);
              rank = (case counted of
                        [] \<Rightarrow> 0
                      | doc # ds \<Rightarrow> (case map_of doc ''rank'' of Some (BInt64 n) \<Rightarrow> n | _ \<Rightarrow> 0))
          in if fail_aggregate then Inl (Wrapped RepoRank DriverError)
             else Inr (rank + 1))"

section \<open>The ranking service (internal/service/leaderboard_service.go)\<close>

record SubmitScoreRequest =
  req_LeaderboardID :: string
  req_UserID :: string
  req_Score :: int
  req_Source :: string

record SubmitScoreResponse =
  resp_UserID :: string
  resp_Score :: int
  resp_PreviousScore :: int
  resp_Rank :: int
  resp_PreviousRank :: int
  resp_RankChange :: int

record BatchSubmitScoreRequest =
  breq_LeaderboardID :: string
  breq_Scores :: "SubmitScoreRequest list"

text \<open>An entry of \<open>Errors\<close> is the user of the failed submission with its error.\<close>

record BatchSubmitScoreResponse =
  SuccessCount :: int
  FailureCount :: int
  Results :: "SubmitScoreResponse list"
  Errors :: "(string \<times> error) list"

record UserRankResponse =
  ur_UserID :: string
  ur_Score :: int
  ur_Rank :: int
  ur_TotalUsers :: int

definition GetLeaderboard :: "env \<Rightarrow> state \<Rightarrow> string \<Rightarrow> (error + Leaderboard) \<times> state" where
  "GetLeaderboard e s leaderboardID =
     (case redis_GetLeaderboardConfig (fails e CfgGet) s leaderboardID of
        Inr (Some leaderboard) \<Rightarrow> (Inr leaderboard, s)
      | _ \<Rightarrow>
          (case mongodb_GetLeaderboard (fails e CfgFind) s leaderboardID of
             Inl err \<Rightarrow> (Inl (Wrapped GetLeaderboardFailed err), s)
           | Inr leaderboard \<Rightarrow>
               (Inr leaderboard, snd (redis_SetLeaderboardConfig (fails e CfgSet) s leaderboard))))"

definition SubmitScore ::
  "env \<Rightarrow> state \<Rightarrow> SubmitScoreRequest \<Rightarrow> (error + SubmitScoreResponse) \<times> state" where
  "SubmitScore e s req =
     (case GetLeaderboard e s (req_LeaderboardID req) of
        (Inl err, s1) \<Rightarrow> (Inl (Wrapped GetConfigFailed err), s1)
      | (Inr leaderboard, s1) \<Rightarrow>
          let (previousScore, previousRank) =
                (case mongodb_GetUserScore (fails e FindScore) s1
                        (req_LeaderboardID req) (req_UserID req) of
                   Inr (Some currentRecord) \<Rightarrow>
                     (sr_Score currentRecord,
                      (case redis_GetRank (fails e PrevRank) s1 (req_LeaderboardID req)
                              (req_UserID req) (lb_SortOrder leaderboard) of
                         Inl err \<Rightarrow> 0
                       | Inr r \<Rightarrow> r))
                 | _ \<Rightarrow> (0, 0));
              scoreRecord =
                \<lparr>sr_LeaderboardID = req_LeaderboardID req,
                 sr_UserID = req_UserID req,
                 sr_Score = req_Score req,
                 sr_PreviousScore = previousScore,
                 sr_Source = (if req_Source req = [] then ''game'' else req_Source req),
                 sr_SubmittedAt = now e,
                 sr_CreatedAt = 0\<rparr>
          in (case mongodb_CreateScoreRecord (fails e InsertScore) (now e) s1 scoreRecord of
                (Inl err, s2) \<Rightarrow> (Inl (Wrapped SaveRecordFailed err), s2)
              | (Inr u, s2) \<Rightarrow>
                  let s3 = snd (redis_SetScore (fails e ZAddScore) s2 (req_LeaderboardID req)
                                  (req_UserID req) (req_Score req));
                      newRank =
                        (case redis_GetRank (fails e NewRank) s3 (req_LeaderboardID req)
                                (req_UserID req) (lb_SortOrder leaderboard) of
                           Inl err \<Rightarrow> 0
                         | Inr r \<Rightarrow> r);
                      rankChange =
                        (if previousRank > 0 \<and> newRank > 0 then previousRank - newRank else 0)
                  in (Inr \<lparr>resp_UserID = req_UserID req,
                           resp_Score = req_Score req,
                           resp_PreviousScore = previousScore,
                           resp_Rank = newRank,
                           resp_PreviousRank = previousRank,
                           resp_RankChange = rankChange\<rparr>, s3)))"

text \<open>
  The loop of \<open>BatchSubmitScores\<close>: the \<open>i\<close>-th submission runs in the environment
  \<open>es i\<close>, under the leaderboard of the batch.
\<close>

fun batch_loop ::
  "(nat \<Rightarrow> env) \<Rightarrow> nat \<Rightarrow> string \<Rightarrow> SubmitScoreRequest list \<Rightarrow> BatchSubmitScoreResponse
     \<Rightarrow> state \<Rightarrow> BatchSubmitScoreResponse \<times> state" where
  "batch_loop es i leaderboardID [] response s = (response, s)"
| "batch_loop es i leaderboardID (scoreReq # rest) response s =
     (let scoreReq1 = scoreReq\<lparr>req_LeaderboardID := leaderboardID\<rparr>
      in case SubmitScore (es i) s scoreReq1 of
           (Inl err, s1) \<Rightarrow>
             batch_loop es (Suc i) leaderboardID rest
               (response\<lparr>FailureCount := FailureCount response + 1,
                          Errors := Errors response @ [(req_UserID scoreReq1, err)]\<rparr>) s1
         | (Inr result, s1) \<Rightarrow>
             batch_loop es (Suc i) leaderboardID rest
               (response\<lparr>SuccessCount := SuccessCount response + 1,
                          Results := Results response @ [result]\<rparr>) s1)"

definition BatchSubmitScores ::
  "(nat \<Rightarrow> env) \<Rightarrow> state \<Rightarrow> BatchSubmitScoreRequest
     \<Rightarrow> (error + BatchSubmitScoreResponse) \<times> state" where
  "BatchSubmitScores es s req =
     (let (response, s1) =
            batch_loop es 0 (breq_LeaderboardID req) (breq_Scores req)
              \<lparr>SuccessCount = 0, FailureCount = 0, Results = [], Errors = []\<rparr> s
      in (Inr response, s1))"

text \<open>
  The loop of \<open>GetRankings\<close> over the records read from the history, \<open>i\<close> being the
  index of the record at the head and \<open>rankings\<close> the entries gathered so far.
\<close>

fun rankings_loop ::
  "int \<Rightarrow> ScoreRecord list \<Rightarrow> int \<Rightarrow> int \<Rightarrow> RankingEntry list \<Rightarrow> RankingEntry list" where
  "rankings_loop i [] offset limit rankings = rankings"
| "rankings_loop i (record # rest) offset limit rankings =
     (if i < offset then rankings_loop (i + 1) rest offset limit rankings
      else
        let rankings1 = rankings @
              [\<lparr>re_UserID = sr_UserID record, re_Score = sr_Score record, re_Rank = i + 1,
                re_UpdatedAt = sr_SubmittedAt record\<rparr>]
        in if int (length rankings1) \<ge> limit then rankings1
           else rankings_loop (i + 1) rest offset limit rankings1)"

text \<open>
  A Go map from user to score, as the list of its entries; assigning to a key that is
  present replaces its value.
\<close>

fun map_assign :: "string \<Rightarrow> int \<Rightarrow> (string \<times> int) list \<Rightarrow> (string \<times> int) list" where
  "map_assign k v [] = [(k, v)]"
| "map_assign k v (p # ps) = (if fst p = k then (k, v) # ps else p # map_assign k v ps)"

definition GetRankings ::
  "env \<Rightarrow> state \<Rightarrow> string \<Rightarrow> int \<Rightarrow> int \<Rightarrow> (error + RankingEntry list) \<times> state" where
  "GetRankings e s leaderboardID limit offset =
     (case GetLeaderboard e s leaderboardID of
        (Inl err, s1) \<Rightarrow> (Inl (Wrapped GetConfigFailed err), s1)
      | (Inr leaderboard, s1) \<Rightarrow>
          let cached =
                (if offset = 0
                 then (case redis_GetTopRankings (fails e ZRangeCall) (now e) s1 leaderboardID
                              limit (lb_SortOrder leaderboard) of
                         Inr rankings \<Rightarrow> (if length rankings > 0 then Some rankings else None)
                       | Inl err \<Rightarrow> None)
                 else None)
          in (case cached of
                Some rankings \<Rightarrow> (Inr rankings, s1)
              | None \<Rightarrow>
                  (case mongodb_GetTopScores (fails e Aggregate) (swapped e) s1 leaderboardID
                          (wrap64 (limit + offset)) (lb_SortOrder leaderboard) of
                     Inl err \<Rightarrow> (Inl (Wrapped GetDataFailed err), s1)
                   | Inr records \<Rightarrow>
                       let rankings = rankings_loop 0 records offset limit [];
                           s2 = (if offset = 0 \<and> length rankings > 0
                                 then snd (redis_BatchSetScores (fails e PipeExec) (map_order e)
                                             s1 leaderboardID
                                             (fold (\<lambda>ranking scores.
                                                      map_assign (re_UserID ranking)
                                                        (re_Score ranking) scores)
                                                rankings []))
                                 else s1)
                       in (Inr rankings, s2))))"

definition GetUserRank ::
  "env \<Rightarrow> state \<Rightarrow> string \<Rightarrow> string \<Rightarrow> (error + UserRankResponse) \<times> state" where
  "GetUserRank e s leaderboardID userID =
     (case GetLeaderboard e s leaderboardID of
        (Inl err, s1) \<Rightarrow> (Inl (Wrapped GetConfigFailed err), s1)
      | (Inr leaderboard, s1) \<Rightarrow>
          let cachedScore =
                (case redis_GetScore (fails e ZScoreCall) s1 leaderboardID userID of
                   Inl err \<Rightarrow> None
                 | Inr score \<Rightarrow> (if score = 0 then None else Some score));
              scoreRes =
                (case cachedScore of
                   Some score \<Rightarrow> Inr score
                 | None \<Rightarrow>
                     (case mongodb_GetUserScore (fails e FindScore) s1 leaderboardID userID of
                        Inl err \<Rightarrow> Inl (Wrapped GetUserScoreFailed err)
                      | Inr None \<Rightarrow> Inl NoScoreRecord
                      | Inr (Some record) \<Rightarrow> Inr (sr_Score record)))
          in (case scoreRes of
                Inl err \<Rightarrow> (Inl err, s1)
              | Inr score \<Rightarrow>
                  let cachedRank =
                        (case redis_GetRank (fails e ZRankCall) s1 leaderboardID userID
                                (lb_SortOrder leaderboard) of
                           Inl err \<Rightarrow> None
                         | Inr rank \<Rightarrow> (if rank = 0 then None else Some rank));
                      rankRes =
                        (case cachedRank of
                           Some rank \<Rightarrow> Inr rank
                         | None \<Rightarrow>
                             (case mongodb_GetUserRank (fails e RepoFindScore) (fails e Aggregate)
                                     (swapped e) s1 leaderboardID userID
                                     (lb_SortOrder leaderboard) of
                                Inl err \<Rightarrow> Inl (Wrapped GetUserRankFailed err)
                              | Inr rank \<Rightarrow> Inr rank))
                  in (case rankRes of
                        Inl err \<Rightarrow> (Inl err, s1)
                      | Inr rank \<Rightarrow>
                          let totalUsers =
                                (case redis_GetLeaderboardSize (fails e ZCardCall) s1
                                        leaderboardID of
                                   Inl err \<Rightarrow> 0
                                 | Inr n \<Rightarrow> n)
                          in (Inr \<lparr>ur_UserID = userID, ur_Score = score, ur_Rank = rank,
                                   ur_TotalUsers = totalUsers\<rparr>, s1))))"

definition GetRankingsAroundUser ::
  "env \<Rightarrow> state \<Rightarrow> string \<Rightarrow> string \<Rightarrow> int \<Rightarrow> (error + RankingEntry list) \<times> state" where
  "GetRankingsAroundUser e s leaderboardID userID cnt =
     (case GetLeaderboard e s leaderboardID of
        (Inl err, s1) \<Rightarrow> (Inl (Wrapped GetConfigFailed err), s1)
      | (Inr leaderboard, s1) \<Rightarrow>
          (case redis_GetRankingsAroundUser (fails e ZRankCall) (fails e ZRangeCall) (now e) s1
                  leaderboardID userID cnt (lb_SortOrder leaderboard) of
             Inl err \<Rightarrow> (Inl (Wrapped AroundUserFailed err), s1)
           | Inr rankings \<Rightarrow> (Inr rankings, s1)))"

text \<open>
  \<open>RebuildLeaderboard\<close> after the lock is taken; the deferred \<open>ReleaseLock\<close> runs on
  every way out of this part.
\<close>

definition rebuild_locked ::
  "env \<Rightarrow> state \<Rightarrow> Leaderboard \<Rightarrow> string \<Rightarrow> (error + unit) \<times> state" where
  "rebuild_locked e s leaderboard leaderboardID =
     (case redis_ClearLeaderboard (fails e ClearDel) s leaderboardID of
        (Inl err, s1) \<Rightarrow> (Inl (Wrapped ClearCacheFailed err), s1)
      | (Inr u, s1) \<Rightarrow>
          (case mongodb_GetTopScores (fails e Aggregate) (swapped e) s1 leaderboardID
                  (lb_MaxEntries leaderboard) (lb_SortOrder leaderboard) of
             Inl err \<Rightarrow> (Inl (Wrapped GetRecordsFailed err), s1)
           | Inr records \<Rightarrow>
               let scores = fold (\<lambda>record scores.
                                    map_assign (sr_UserID record) (sr_Score record) scores)
                              records []
               in if length scores > 0
                  then (case redis_BatchSetScores (fails e PipeExec) (map_order e) s1
                               leaderboardID scores of
                          (Inl err, s2) \<Rightarrow> (Inl (Wrapped BatchSetFailed err), s2)
                        | (Inr u, s2) \<Rightarrow> (Inr (), s2))
                  else (Inr (), s1)))"

definition RebuildLeaderboard :: "env \<Rightarrow> state \<Rightarrow> string \<Rightarrow> (error + unit) \<times> state" where
  "RebuildLeaderboard e s leaderboardID =
     (case GetLeaderboard e s leaderboardID of
        (Inl err, s1) \<Rightarrow> (Inl (Wrapped GetConfigFailed err), s1)
      | (Inr leaderboard, s1) \<Rightarrow>
          (case redis_AcquireLock (fails e LockSetNX) s1 leaderboardID of
             (Inl err, s2) \<Rightarrow> (Inl (Wrapped AcquireLockFailed err), s2)
           | (Inr lockAcquired, s2) \<Rightarrow>
               if \<not> lockAcquired then (Inl RebuildInProgress, s2)
               else
                 let (res, s3) = rebuild_locked e s2 leaderboard leaderboardID
                 in (res, snd (redis_ReleaseLock (fails e UnlockDel) s3 leaderboardID))))"

section \<open>The HTTP handlers (internal/handler/leaderboard_handler.go)\<close>

text \<open>
  A handler answers with a status code and a body. \<open>BindJSON\<close> is not part of the
  sources at hand: the handler is given its outcome, the decoded request or \<open>None\<close> when
  decoding fails. In the same way the handler of the rankings is given the outcome of
  \<open>strconv.ParseInt\<close> on each query parameter (on its default when the parameter is
  absent), \<open>None\<close> when the text is not an \<open>int64\<close>.
\<close>

datatype batch_body =
    BindFailed
  | EmptyScores
  | TooManyScores
  | NegativeScoreAt nat
  | EmptyUserIDAt nat
  | BatchFailed error
  | BatchDone BatchSubmitScoreResponse

fun validate_scores :: "nat \<Rightarrow> SubmitScoreRequest list \<Rightarrow> batch_body option" where
  "validate_scores i [] = None"
| "validate_scores i (score # rest) =
     (if req_Score score < 0 then Some (NegativeScoreAt (i + 1))
      else if req_UserID score = [] then Some (EmptyUserIDAt (i + 1))
      else validate_scores (Suc i) rest)"

definition BatchSubmit ::
  "(nat \<Rightarrow> env) \<Rightarrow> state \<Rightarrow> BatchSubmitScoreRequest option \<Rightarrow> (int \<times> batch_body) \<times> state" where
  "BatchSubmit es s bound =
     (case bound of
        None \<Rightarrow> ((400, BindFailed), s)
      | Some req \<Rightarrow>
          if length (breq_Scores req) = 0 then ((400, EmptyScores), s)
          else if length (breq_Scores req) > 1000 then ((400, TooManyScores), s)
          else
            (case validate_scores 0 (breq_Scores req) of
               Some body \<Rightarrow> ((400, body), s)
             | None \<Rightarrow>
                 (case BatchSubmitScores es s req of
                    (Inl err, s1) \<Rightarrow> ((500, BatchFailed err), s1)
                  | (Inr result, s1) \<Rightarrow>
                      let statusCode =
                            (if FailureCount result > 0
                             then (if SuccessCount result = 0 then 400 else 206)
                             else 200)
                      in ((statusCode, BatchDone result), s1))))"

datatype get_body =
    MissingID
  | NotFound error
  | GetFailed error
  | GetOK Leaderboard "RankingEntry list" int int

definition query_limit :: "int option \<Rightarrow> int" where
  "query_limit parsed =
     (let limit = (case parsed of None \<Rightarrow> 100 | Some l \<Rightarrow> if l \<le> 0 then 100 else l)
      in if limit > 1000 then 1000 else limit)"

definition query_offset :: "int option \<Rightarrow> int" where
  "query_offset parsed = (case parsed of None \<Rightarrow> 0 | Some off \<Rightarrow> if off < 0 then 0 else off)"

text \<open>
  \<open>LeaderboardHandler.Get\<close> calls the service twice; \<open>e1\<close> is the environment of
  \<open>GetLeaderboard\<close> and \<open>e2\<close> the one of \<open>GetRankings\<close>.
\<close>

definition Get ::
  "env \<Rightarrow> env \<Rightarrow> state \<Rightarrow> string \<Rightarrow> int option \<Rightarrow> int option \<Rightarrow> (int \<times> get_body) \<times> state" where
  "Get e1 e2 s leaderboardID limitQuery offsetQuery =
     (if leaderboardID = [] then ((400, MissingID), s)
      else
        let limit = query_limit limitQuery;
            offset = query_offset offsetQuery
        in (case GetLeaderboard e1 s leaderboardID of
              (Inl err, s1) \<Rightarrow> ((404, NotFound err), s1)
            | (Inr leaderboard, s1) \<Rightarrow>
                (case GetRankings e2 s1 leaderboardID limit offset of
                   (Inl err, s2) \<Rightarrow> ((500, GetFailed err), s2)
                 | (Inr rankings, s2) \<Rightarrow> ((200, GetOK leaderboard rankings limit offset), s2))))"

section \<open>Notions used to state the properties\<close>

text \<open>
  The members of a sorted set in ranking order: rank 1 first. A descending leaderboard
  reads the sorted set from its end.
\<close>

definition cache_order :: "SortOrder \<Rightarrow> zset \<Rightarrow> zset" where
  "cache_order sortOrder z = (if sortOrder = SortOrderDesc then rev z else z)"

text \<open>The ranking entries of a list of score records, ranked \<open>k\<close>, \<open>k + 1\<close>, and so on.\<close>

fun history_entries :: "int \<Rightarrow> ScoreRecord list \<Rightarrow> RankingEntry list" where
  "history_entries k [] = []"
| "history_entries k (r # rs) =
     \<lparr>re_UserID = sr_UserID r, re_Score = sr_Score r, re_Rank = k,
      re_UpdatedAt = sr_SubmittedAt r\<rparr> # history_entries (k + 1) rs"

text \<open>
  The score of the latest record of a user in the history, as \<open>GetUserScore\<close> finds it,
  and the users that have a record on a leaderboard.
\<close>

definition latest_score :: "state \<Rightarrow> string \<Rightarrow> string \<Rightarrow> int option" where
  "latest_score s leaderboardID userID =
     (case mongodb_GetUserScore False s leaderboardID userID of
        Inr (Some record) \<Rightarrow> Some (sr_Score record)
      | _ \<Rightarrow> None)"

definition history_users :: "state \<Rightarrow> string \<Rightarrow> string list" where
  "history_users s leaderboardID =
     remdups (map sr_UserID (filter (\<lambda>r. sr_LeaderboardID r = leaderboardID) (score_records s)))"

text \<open>
  The rank of a user in the history in the words of the specification: one plus the number
  of users whose latest score is strictly greater, on a descending leaderboard, or
  strictly less, on an ascending one, than the latest score of the user; an error when the
  user has no record.
\<close>

definition outranks :: "SortOrder \<Rightarrow> int \<Rightarrow> int \<Rightarrow> bool" where
  "outranks sortOrder a b = (if sortOrder = SortOrderDesc then a > b else a < b)"

definition rankOf_spec :: "state \<Rightarrow> string \<Rightarrow> string \<Rightarrow> SortOrder \<Rightarrow> error + int" where
  "rankOf_spec s leaderboardID userID sortOrder =
     (case latest_score s leaderboardID userID of
        None \<Rightarrow> Inl NoScoreRecord
      | Some score \<Rightarrow>
          Inr (1 + int (length (filter
                 (\<lambda>u. case latest_score s leaderboardID u of
                        None \<Rightarrow> False
                      | Some other \<Rightarrow> outranks sortOrder other score)
                 (history_users s leaderboardID)))))"

text \<open>
  A list of ranking entries is in the order of the scores when no entry is outranked by
  an entry that comes after it.
\<close>

definition in_score_order :: "SortOrder \<Rightarrow> RankingEntry list \<Rightarrow> bool" where
  "in_score_order sortOrder entries =
     sorted_wrt (\<lambda>a b. \<not> outranks sortOrder (re_Score b) (re_Score a)) entries"

text \<open>The commands queued by \<open>BatchSetScores\<close>, run on a sorted set.\<close>

definition zadd_all :: "(string \<times> int) list \<Rightarrow> zset \<Rightarrow> zset" where
  "zadd_all ps z = fold (\<lambda>p z. zadd (fst p) (float64_of_int64 (snd p)) z) ps z"

section \<open>Scenarios\<close>

text \<open>
  Concrete environments and states on which the theorems below are instantiated: the
  environment \<open>quiet\<close> in which no call fails, a descending leaderboard \<open>L\<close>, and a state
  made of one leaderboard, whose configuration is cached, a score history and the sorted
  set of \<open>L\<close>.
\<close>

definition quiet :: env where
  "quiet = \<lparr>fails = (\<lambda>c. False), now = 5, swapped = (\<lambda>st. False), map_order = (\<lambda>m. m)\<rparr>"

definition board_L :: "int \<Rightarrow> Leaderboard" where
  "board_L maxEntries = \<lparr>lb_LeaderboardID = ''L'', lb_Name = ''weekly'', lb_GameID = ''g'',
     lb_SortOrder = SortOrderDesc, lb_MaxEntries = maxEntries, lb_IsActive = True\<rparr>"

definition submission :: "string \<Rightarrow> int \<Rightarrow> SubmitScoreRequest" where
  "submission u sc =
     \<lparr>req_LeaderboardID = ''L'', req_UserID = u, req_Score = sc, req_Source = []\<rparr>"

definition history_record :: "string \<Rightarrow> int \<Rightarrow> nat \<Rightarrow> ScoreRecord" where
  "history_record u sc t = \<lparr>sr_LeaderboardID = ''L'', sr_UserID = u, sr_Score = sc,
     sr_PreviousScore = 0, sr_Source = ''game'', sr_SubmittedAt = t, sr_CreatedAt = t\<rparr>"

definition store :: "Leaderboard \<Rightarrow> ScoreRecord list \<Rightarrow> zset \<Rightarrow> state" where
  "store b rs z = \<lparr>leaderboards = [b], score_records = rs,
     zsets = (\<lambda>k. if k = ''leaderboard:L'' then z else []),
     config_cache = [''leaderboard_config:L'' \<mapsto> b], locks = (\<lambda>k. False)\<rparr>"

definition all_quiet :: "nat \<Rightarrow> env" where
  "all_quiet i = quiet"

definition insert_fails :: env where
  "insert_fails = quiet\<lparr>fails := (\<lambda>c. c = InsertScore)\<rparr>"

text \<open>The states of the scenarios.\<close>

definition empty_board :: state where
  "empty_board = store (board_L 10) [] []"

definition other_user_cached :: state where
  "other_user_cached = store (board_L 10) [] [(100, ''u2'')]"

definition cached_without_history :: state where
  "cached_without_history = store (board_L 10) [] [(100, ''u1'')]"

definition ranked_pair :: state where
  "ranked_pair =
     store (board_L 10) [history_record ''u1'' 100 1] [(100, ''u1''), (200, ''u2'')]"

definition zero_cached :: state where
  "zero_cached = store (board_L 10) [history_record ''u1'' 200 1] [(0, ''u1'')]"

definition five_cached :: state where
  "five_cached =
     store (board_L 10) []
       [(10, ''u1''), (20, ''u2''), (30, ''u3''), (40, ''u4''), (50, ''u5'')]"

definition three_recorded :: state where
  "three_recorded =
     store (board_L 10)
       [history_record ''u1'' 300 3, history_record ''u2'' 200 2, history_record ''u3'' 100 1]
       []"

definition rising_times :: state where
  "rising_times =
     store (board_L 10)
       [history_record ''u1'' 300 1, history_record ''u2'' 200 2, history_record ''u3'' 100 3]
       []"

definition two_recorded :: state where
  "two_recorded =
     store (board_L 10) [history_record ''u1'' 100 1, history_record ''u2'' 200 2] []"



definition capacity_one :: state where
  "capacity_one =
     store (board_L 1) [history_record ''u2'' 200 1, history_record ''u1'' 100 2] []"

text \<open>An environment in which the keys of every two-key sort arrive swapped.\<close>

definition keys_swapped :: env where
  "keys_swapped = quiet\<lparr>swapped := (\<lambda>st. True)\<rparr>"

definition batch3 :: BatchSubmitScoreRequest where
  "batch3 = \<lparr>breq_LeaderboardID = ''L'',
     breq_Scores = [submission ''u1'' 100, submission ''u2'' (- 5), submission ''u3'' 300]\<rparr>"

section \<open>Scores kept by the cache\<close>

lemma float64_shift_small: "a < 2 ^ 53 \<Longrightarrow> float64_shift a = 0"
proof -
  assume a: "a < 2 ^ 53"
  have "\<And>k::nat. (2::int) ^ 53 \<le> 2 ^ (53 + k)"
    by (rule power_increasing) simp_all
  with a have "\<And>k::nat. \<not> 2 ^ (53 + k) \<le> a"
    by (metis not_less order_trans)
  then show ?thesis
    by (simp add: float64_shift_def)
qed

lemma float64_of_int64_small: "\<bar>n\<bar> < 2 ^ 53 \<Longrightarrow> float64_of_int64 n = n"
  by (simp add: float64_of_int64_def float64_shift_small Let_def mult_sgn_abs)

lemma float64_of_int64_pow53: "float64_of_int64 (2 ^ 53) = 2 ^ 53"
  by code_simp

lemma float64_of_int64_neg_pow53: "float64_of_int64 (- (2 ^ 53)) = - (2 ^ 53)"
  by code_simp

lemma float64_of_int64_exact: "\<bar>n\<bar> \<le> 2 ^ 53 \<Longrightarrow> float64_of_int64 n = n"
proof -
  assume "\<bar>n\<bar> \<le> 2 ^ 53"
  then consider "\<bar>n\<bar> < 2 ^ 53" | "n = 2 ^ 53" | "n = - (2 ^ 53)"
    by linarith
  then show ?thesis
    by cases
      (simp_all only: float64_of_int64_small float64_of_int64_pow53 float64_of_int64_neg_pow53)
qed

lemma float64_of_int64_inexact: "float64_of_int64 (2 ^ 53 + 1) = 2 ^ 53"
  by code_simp

lemma int64_of_float64_exact: "\<bar>n\<bar> \<le> 2 ^ 53 \<Longrightarrow> int64_of_float64 n = n"
  by (auto simp add: int64_of_float64_def)

lemma find_insort_new:
  "P x \<Longrightarrow> \<forall>y\<in>set xs. \<not> P y \<Longrightarrow> find P (insort_key f x xs) = Some x"
  by (induction xs) auto

lemma zscore_zadd_same: "zscore (zadd member v z) member = Some v"
  by (simp add: zscore_def zadd_def find_insort_new)

lemma GetScore_after_SetScore:
  "redis_GetScore False (snd (redis_SetScore False s lid uid score)) lid uid
     = Inr (int64_of_float64 (float64_of_int64 score))"
  by (simp add: redis_GetScore_def redis_SetScore_def client_ZScore_def zscore_zadd_same Let_def)

text \<open>
  C10. A score of magnitude at most \<open>2 ^ 53\<close> written by \<open>SetScore\<close> is read back by
  \<open>GetScore\<close> unchanged, and some \<open>int64\<close> score of larger magnitude is read back as a
  different number: the cache keeps scores as \<open>float64\<close>.
\<close>

theorem SetScore_GetScore_float64:
  "(\<forall>score. \<bar>score\<bar> \<le> 2 ^ 53 \<longrightarrow>
      redis_GetScore False (snd (redis_SetScore False s lid uid score)) lid uid = Inr score)
   \<and> (\<exists>score. - (2 ^ 63) \<le> score \<and> score < 2 ^ 63 \<and> 2 ^ 53 < \<bar>score\<bar> \<and>
      redis_GetScore False (snd (redis_SetScore False s lid uid score)) lid uid \<noteq> Inr score)"
proof (intro conjI allI impI)
  fix score :: int
  assume b: "\<bar>score\<bar> \<le> 2 ^ 53"
  then show "redis_GetScore False (snd (redis_SetScore False s lid uid score)) lid uid = Inr score"
    by (simp only: GetScore_after_SetScore float64_of_int64_exact int64_of_float64_exact)
next
  have "redis_GetScore False (snd (redis_SetScore False s lid uid (2 ^ 53 + 1))) lid uid
          = Inr (2 ^ 53)"
    by (simp only: GetScore_after_SetScore float64_of_int64_inexact)
      (simp add: int64_of_float64_def)
  then show "\<exists>score. - (2 ^ 63) \<le> score \<and> score < 2 ^ 63 \<and> 2 ^ 53 < \<bar>score\<bar> \<and>
      redis_GetScore False (snd (redis_SetScore False s lid uid score)) lid uid \<noteq> Inr score"
    by (intro exI[of _ "2 ^ 53 + 1"]) simp
qed

theorem SetScore_GetScore_float64_witness:
  "\<bar>100::int\<bar> \<le> 2 ^ 53 \<and>
   redis_GetScore False (snd (redis_SetScore False empty_board ''L'' ''u1'' 100)) ''L'' ''u1''
     = Inr 100"
proof -
  have h: "\<bar>100::int\<bar> \<le> 2 ^ 53" by simp
  from SetScore_GetScore_float64[of empty_board "''L''" "''u1''"]
  have "\<forall>score. \<bar>score\<bar> \<le> 2 ^ 53 \<longrightarrow>
      redis_GetScore False (snd (redis_SetScore False empty_board ''L'' ''u1'' score))
        ''L'' ''u1'' = Inr score"
    by (rule conjunct1)
  with h show ?thesis by blast
qed

section \<open>Submitting a score\<close>

lemma GetLeaderboard_zsets: "zsets (snd (GetLeaderboard e s lid)) = zsets s"
  by (simp add: GetLeaderboard_def redis_GetLeaderboardConfig_def mongodb_GetLeaderboard_def
      redis_SetLeaderboardConfig_def Let_def split: sum.splits option.splits)

lemma GetLeaderboard_records: "score_records (snd (GetLeaderboard e s lid)) = score_records s"
  by (simp add: GetLeaderboard_def redis_GetLeaderboardConfig_def mongodb_GetLeaderboard_def
      redis_SetLeaderboardConfig_def Let_def split: sum.splits option.splits)

text \<open>The definitions unfolded to run the model on a scenario.\<close>

lemmas run_defs =
  GetLeaderboard_def redis_GetLeaderboardConfig_def mongodb_GetLeaderboard_def
  redis_SetLeaderboardConfig_def
  SubmitScore_def mongodb_GetUserScore_def mongodb_CreateScoreRecord_def redis_SetScore_def
  redis_GetRank_def redis_GetScore_def client_ZScore_def client_ZRevRank_def client_ZRank_def
  zscore_def zrevrank_def zrank_def zadd_def
  GetRedisKey_def RedisKeyLeaderboard_def RedisKeyLeaderboardConfig_def RedisKeyRankingLock_def
  SortOrderDesc_def SortOrderAsc_def
  quiet_def board_L_def submission_def history_record_def store_def
  float64_of_int64_small int64_of_float64_def Let_def
  mongodb_GetTopScores_def sort_user_submitted_def sort_score_submitted_def
  RebuildLeaderboard_def rebuild_locked_def redis_AcquireLock_def
  redis_ClearLeaderboard_def redis_BatchSetScores_def redis_ReleaseLock_def
  latest_score_def history_users_def

lemma GetLeaderboard_store:
  "\<not> fails e CfgGet \<Longrightarrow> GetLeaderboard e (store b rs z) ''L'' = (Inr b, store b rs z)"
  by (simp add: GetLeaderboard_def redis_GetLeaderboardConfig_def store_def GetRedisKey_def
      RedisKeyLeaderboardConfig_def)

text \<open>
  C6. When the insertion of the new score record fails, \<open>SubmitScore\<close> returns an error
  and every sorted set of the cache is as it was before the call.
\<close>

theorem SubmitScore_append_failure:
  "fails e InsertScore \<Longrightarrow>
     (\<exists>err. fst (SubmitScore e s req) = Inl err) \<and> zsets (snd (SubmitScore e s req)) = zsets s"
proof -
  assume f: "fails e InsertScore"
  obtain r s1 where g: "GetLeaderboard e s (req_LeaderboardID req) = (r, s1)"
    by (cases "GetLeaderboard e s (req_LeaderboardID req)")
  have z: "zsets s1 = zsets s"
    using GetLeaderboard_zsets[of e s "req_LeaderboardID req"] g by simp
  show ?thesis
  proof (cases r)
    case (Inl err)
    with g z show ?thesis by (simp add: SubmitScore_def)
  next
    case (Inr lb)
    with g z f show ?thesis
      by (simp add: SubmitScore_def mongodb_CreateScoreRecord_def Let_def split: prod.splits)
  qed
qed

theorem SubmitScore_append_failure_witness:
  "fails insert_fails InsertScore \<and>
   (\<exists>err. fst (SubmitScore insert_fails other_user_cached (submission ''u1'' 50)) = Inl err) \<and>
   zsets (snd (SubmitScore insert_fails other_user_cached (submission ''u1'' 50)))
     = zsets other_user_cached"
proof -
  have h: "fails insert_fails InsertScore" by (simp add: insert_fails_def)
  show ?thesis
    using h SubmitScore_append_failure[OF h, of other_user_cached "submission ''u1'' 50"]
    by simp
qed

text \<open>
  C5, as the code has it. In a successful \<open>SubmitScore\<close> the previous score is the score
  of the latest record of the user in the history when the history is read and has one,
  and 0 otherwise; the previous rank is the rank of the user in the cache only in that
  same case, and 0 whenever no record is found, whatever the cache holds.
\<close>

theorem SubmitScore_previous_state:
  assumes "GetLeaderboard e s (req_LeaderboardID req) = (Inr lb, s1)"
      and "fst (SubmitScore e s req) = Inr resp"
  shows "resp_PreviousScore resp =
           (case mongodb_GetUserScore (fails e FindScore) s1 (req_LeaderboardID req) (req_UserID req) of
              Inr (Some currentRecord) \<Rightarrow> sr_Score currentRecord
            | _ \<Rightarrow> 0)
       \<and> resp_PreviousRank resp =
           (case mongodb_GetUserScore (fails e FindScore) s1 (req_LeaderboardID req) (req_UserID req) of
              Inr (Some currentRecord) \<Rightarrow>
                (case redis_GetRank (fails e PrevRank) s1 (req_LeaderboardID req) (req_UserID req)
                        (lb_SortOrder lb) of
                   Inr rank \<Rightarrow> rank
                 | Inl err \<Rightarrow> 0)
            | _ \<Rightarrow> 0)"
  using assms
  by (auto simp add: SubmitScore_def Let_def split: prod.splits sum.splits option.splits)

theorem SubmitScore_previous_state_witness:
  "GetLeaderboard quiet ranked_pair ''L'' = (Inr (board_L 10), ranked_pair)
   \<and> fst (SubmitScore quiet ranked_pair (submission ''u1'' 300))
       = Inr \<lparr>resp_UserID = ''u1'', resp_Score = 300, resp_PreviousScore = 100, resp_Rank = 1,
              resp_PreviousRank = 2, resp_RankChange = 1\<rparr>
   \<and> latest_score ranked_pair ''L'' ''u1'' = Some 100
   \<and> redis_GetRank False ranked_pair ''L'' ''u1'' SortOrderDesc = Inr 2"
proof -
  let ?r = "\<lparr>resp_UserID = ''u1'', resp_Score = 300, resp_PreviousScore = 100, resp_Rank = 1,
              resp_PreviousRank = 2, resp_RankChange = 1\<rparr>"
  have h1: "GetLeaderboard quiet ranked_pair (req_LeaderboardID (submission ''u1'' 300))
              = (Inr (board_L 10), ranked_pair)"
    by (simp add: ranked_pair_def GetLeaderboard_store quiet_def submission_def)
  have h2: "fst (SubmitScore quiet ranked_pair (submission ''u1'' 300)) = Inr ?r"
    by (simp add: ranked_pair_def run_defs)
  from SubmitScore_previous_state[OF h1 h2]
  have "latest_score ranked_pair ''L'' ''u1'' = Some 100
      \<and> redis_GetRank False ranked_pair ''L'' ''u1'' SortOrderDesc = Inr 2"
    by (simp add: ranked_pair_def run_defs split: sum.splits)
  with h1 h2 show ?thesis
    by (simp add: submission_def)
qed

text \<open>
  C5 as stated fails: a user with a rank in the cache and no record in the history is
  reported with previous rank 0.
\<close>

theorem SubmitScore_previous_rank_counterexample:
  "redis_GetRank False cached_without_history ''L'' ''u1'' SortOrderDesc = Inr 1
   \<and> latest_score cached_without_history ''L'' ''u1'' = None
   \<and> map_sum id resp_PreviousRank
        (fst (SubmitScore quiet cached_without_history (submission ''u1'' 50))) = Inr 0"
  by (simp add: cached_without_history_def run_defs)

section \<open>Submitting a batch\<close>

text \<open>
  C3, as the code has it. A batch of three entries whose second score is negative, the
  first entry being valid, is refused as a whole by the handler with status 400 naming
  entry 2; the service is not called and the state is unchanged.
\<close>

theorem BatchSubmit_negative_entry_rejected:
  "breq_Scores req = [a, b, c] \<Longrightarrow> 0 \<le> req_Score a \<Longrightarrow> req_UserID a \<noteq> [] \<Longrightarrow> req_Score b < 0
     \<Longrightarrow> BatchSubmit es s (Some req) = ((400, NegativeScoreAt 2), s)"
  by (simp add: BatchSubmit_def)

theorem BatchSubmit_negative_entry_rejected_witness:
  "breq_Scores batch3 = [submission ''u1'' 100, submission ''u2'' (- 5), submission ''u3'' 300]
   \<and> 0 \<le> req_Score (submission ''u1'' 100) \<and> req_UserID (submission ''u1'' 100) \<noteq> []
   \<and> req_Score (submission ''u2'' (- 5)) < 0
   \<and> BatchSubmit all_quiet empty_board (Some batch3) = ((400, NegativeScoreAt 2), empty_board)"
proof -
  have h1: "breq_Scores batch3
              = [submission ''u1'' 100, submission ''u2'' (- 5), submission ''u3'' 300]"
    by (simp add: batch3_def)
  have h2: "0 \<le> req_Score (submission ''u1'' 100)" by (simp add: submission_def)
  have h3: "req_UserID (submission ''u1'' 100) \<noteq> []" by (simp add: submission_def)
  have h4: "req_Score (submission ''u2'' (- 5)) < 0" by (simp add: submission_def)
  from BatchSubmit_negative_entry_rejected[OF h1 h2 h3 h4] h1 h2 h3 h4 show ?thesis
    by simp
qed

text \<open>
  C3 as stated fails: on such a batch the handler answers 400 and applies nothing, and the
  service, which does not look at the sign of a score, counts three successes and no
  failure.
\<close>

theorem BatchSubmit_counterexample:
  "fst (BatchSubmit all_quiet empty_board (Some batch3)) = (400, NegativeScoreAt 2)
   \<and> score_records (snd (BatchSubmit all_quiet empty_board (Some batch3))) = []
   \<and> zsets (snd (BatchSubmit all_quiet empty_board (Some batch3))) ''leaderboard:L'' = []
   \<and> map_sum id SuccessCount (fst (BatchSubmitScores all_quiet empty_board batch3)) = Inr 3
   \<and> map_sum id FailureCount (fst (BatchSubmitScores all_quiet empty_board batch3)) = Inr 0"
proof (intro conjI)
  show "fst (BatchSubmit all_quiet empty_board (Some batch3)) = (400, NegativeScoreAt 2)"
    by (simp add: BatchSubmit_def batch3_def submission_def)
  show "score_records (snd (BatchSubmit all_quiet empty_board (Some batch3))) = []"
    by (simp add: BatchSubmit_def batch3_def submission_def empty_board_def store_def)
  show "zsets (snd (BatchSubmit all_quiet empty_board (Some batch3))) ''leaderboard:L'' = []"
    by (simp add: BatchSubmit_def batch3_def submission_def empty_board_def store_def)
  show "map_sum id SuccessCount (fst (BatchSubmitScores all_quiet empty_board batch3)) = Inr 3"
    by code_simp
  show "map_sum id FailureCount (fst (BatchSubmitScores all_quiet empty_board batch3)) = Inr 0"
    by code_simp
qed

section \<open>Reading the rank of a user\<close>

text \<open>
  C9. For a user who is absent from the sorted set, or whose cached score is 0,
  \<open>GetScore\<close> returns 0 without an error, and the service's \<open>GetUserRank\<close> then takes
  the score from the history: it fails when the history has no record of the user or
  cannot be read, and otherwise every answer carries the score of the latest record.
\<close>

theorem cached_zero_score_falls_back:
  assumes "GetLeaderboard e s lid = (Inr lb, s1)"
      and "zscore (zsets s1 (GetRedisKey RedisKeyLeaderboard lid)) uid = None
           \<or> zscore (zsets s1 (GetRedisKey RedisKeyLeaderboard lid)) uid = Some 0"
  shows "redis_GetScore False s1 lid uid = Inr 0
       \<and> (case mongodb_GetUserScore (fails e FindScore) s1 lid uid of
            Inl err \<Rightarrow> fst (GetUserRank e s lid uid) = Inl (Wrapped GetUserScoreFailed err)
          | Inr None \<Rightarrow> fst (GetUserRank e s lid uid) = Inl NoScoreRecord
          | Inr (Some record) \<Rightarrow>
              (\<forall>resp. fst (GetUserRank e s lid uid) = Inr resp \<longrightarrow> ur_Score resp = sr_Score record))"
proof -
  from assms(2) have z: "redis_GetScore False s1 lid uid = Inr 0"
    by (auto simp add: redis_GetScore_def client_ZScore_def int64_of_float64_def Let_def)
  from assms(2) have miss:
    "(case redis_GetScore (fails e ZScoreCall) s1 lid uid of
        Inl err \<Rightarrow> None | Inr score \<Rightarrow> (if score = 0 then None else Some score)) = None"
    by (auto simp add: redis_GetScore_def client_ZScore_def int64_of_float64_def Let_def)
  show ?thesis
    using z assms(1) miss
    by (auto simp add: GetUserRank_def Let_def split: sum.splits option.splits)
qed

theorem cached_zero_score_falls_back_witness:
  "GetLeaderboard quiet zero_cached ''L'' = (Inr (board_L 10), zero_cached)
   \<and> zscore (zsets zero_cached (GetRedisKey RedisKeyLeaderboard ''L'')) ''u1'' = Some 0
   \<and> redis_GetScore False zero_cached ''L'' ''u1'' = Inr 0
   \<and> latest_score zero_cached ''L'' ''u1'' = Some 200
   \<and> fst (GetUserRank quiet zero_cached ''L'' ''u1'')
       = Inr \<lparr>ur_UserID = ''u1'', ur_Score = 200, ur_Rank = 1, ur_TotalUsers = 1\<rparr>"
proof -
  have h1: "GetLeaderboard quiet zero_cached ''L'' = (Inr (board_L 10), zero_cached)"
    by (simp add: zero_cached_def GetLeaderboard_store quiet_def)
  have h2: "zscore (zsets zero_cached (GetRedisKey RedisKeyLeaderboard ''L'')) ''u1'' = None
            \<or> zscore (zsets zero_cached (GetRedisKey RedisKeyLeaderboard ''L'')) ''u1'' = Some 0"
    by (simp add: zero_cached_def run_defs)
  have h3: "fst (GetUserRank quiet zero_cached ''L'' ''u1'')
              = Inr \<lparr>ur_UserID = ''u1'', ur_Score = 200, ur_Rank = 1, ur_TotalUsers = 1\<rparr>"
    by (simp add: zero_cached_def GetUserRank_def redis_GetLeaderboardSize_def run_defs)
  from cached_zero_score_falls_back[OF h1 h2] h1 h2 h3 show ?thesis
    by (simp add: zero_cached_def run_defs)
qed

section \<open>The rankings around a user\<close>

lemma range_by_rank_nat:
  "range_by_rank xs (int a) (int b) = drop a (take (Suc b) xs)"
proof (cases "a > b \<or> a \<ge> length xs")
  case True
  then show ?thesis by (auto simp add: range_by_rank_def Let_def)
next
  case False
  then have ab: "a \<le> b" and an: "a < length xs" by auto
  show ?thesis
  proof (cases "b \<ge> length xs")
    case True
    with ab an show ?thesis
      by (simp add: range_by_rank_def Let_def nat_diff_distrib' drop_take)
  next
    case False
    with ab an have "nat (int b - int a + 1) = Suc b - a" by linarith
    with ab an False show ?thesis
      by (simp add: range_by_rank_def Let_def drop_take)
  qed
qed

lemma length_ranked_from: "length (ranked_from t k ms) = length ms"
  by (induction ms arbitrary: k) auto

lemma index_of_nth: "index_of P ms = Some i \<Longrightarrow> i < length ms \<and> P (ms ! i)"
  by (induction ms arbitrary: i) (auto split: if_splits)

lemma ranked_from_nth:
  "j < length ms \<Longrightarrow>
     ranked_from t k ms ! j
       = \<lparr>re_UserID = snd (ms ! j), re_Score = int64_of_float64 (fst (ms ! j)),
          re_Rank = k + int j, re_UpdatedAt = t\<rparr>"
proof (induction ms arbitrary: k j)
  case Nil
  then show ?case by simp
next
  case (Cons m ms)
  show ?case
  proof (cases j)
    case 0
    then show ?thesis by simp
  next
    case (Suc j')
    with Cons.prems have "j' < length ms" by simp
    from Cons.IH[OF this, of "k + 1"] Suc show ?thesis by simp
  qed
qed

lemma redis_GetRank_index:
  "redis_GetRank False s lid uid so =
     (case index_of (\<lambda>m. m = uid) (map snd (cache_order so (zsets s (GetRedisKey RedisKeyLeaderboard lid)))) of
        None \<Rightarrow> Inr 0 | Some i \<Rightarrow> Inr (int i + 1))"
  by (auto simp add: redis_GetRank_def client_ZRevRank_def client_ZRank_def zrevrank_def zrank_def
      cache_order_def Let_def rev_map split: option.splits)

text \<open>
  C4, as the code has it. For a count that is not negative, a user absent from the sorted
  set gets the error \<open>UserNotInLeaderboard\<close>. For a user at position \<open>i\<close> of the ranking
  order (rank \<open>i + 1\<close>), the answer is the part of the ranking order from \<open>h\<close> places
  before the user to \<open>h\<close> places after, \<open>h\<close> being half the count rounded down, cut at
  both ends of the ranking and carrying the ranks of its entries; the user is in it, with
  rank \<open>i + 1\<close>. When \<open>h\<close> entries exist on each side the answer has \<open>2 * h + 1\<close>
  entries: the count when it is odd, one more when it is even.
\<close>

theorem GetRankingsAroundUser_window:
  assumes "0 \<le> cnt"
  shows "case index_of (\<lambda>m. m = uid)
               (map snd (cache_order so (zsets s (GetRedisKey RedisKeyLeaderboard lid)))) of
           None \<Rightarrow>
             redis_GetRankingsAroundUser False False t s lid uid cnt so = Inl UserNotInLeaderboard
         | Some i \<Rightarrow>
             (let h = nat (cnt div 2);
                  ordered = cache_order so (zsets s (GetRedisKey RedisKeyLeaderboard lid));
                  entries = ranked_from t (int (i - h) + 1)
                              (drop (i - h) (take (Suc (i + h)) ordered))
              in redis_GetRankingsAroundUser False False t s lid uid cnt so = Inr entries
                 \<and> length entries = min (length ordered) (Suc (i + h)) - (i - h)
                 \<and> (h \<le> i \<and> i + h < length ordered \<longrightarrow> length entries = 2 * h + 1)
                 \<and> min i h < length entries
                 \<and> re_UserID (entries ! min i h) = uid
                 \<and> re_Rank (entries ! min i h) = int i + 1)"
proof (cases "index_of (\<lambda>m. m = uid)
               (map snd (cache_order so (zsets s (GetRedisKey RedisKeyLeaderboard lid))))")
  case None
  then show ?thesis
    by (simp add: redis_GetRankingsAroundUser_def redis_GetRank_index)
next
  case (Some i)
  let ?z = "zsets s (GetRedisKey RedisKeyLeaderboard lid)"
  let ?h = "nat (cnt div 2)"
  let ?w = "drop (i - ?h) (take (Suc (i + ?h)) (cache_order so ?z))"
  have half: "half_of cnt = int ?h"
    using assms by (simp add: half_of_def)
  have start: "(if int i + 1 - int ?h - 1 < 0 then 0 else int i + 1 - int ?h - 1) = int (i - ?h)"
    by auto
  have stop: "int i + 1 + int ?h - 1 = int (i + ?h)"
    by simp
  have rng: "(if so = SortOrderDesc
              then client_ZRevRangeWithScores False ?z (int (i - ?h)) (int (i + ?h))
              else client_ZRangeWithScores False ?z (int (i - ?h)) (int (i + ?h)))
             = Inr ?w"
    unfolding client_ZRevRangeWithScores_def client_ZRangeWithScores_def zrevrange_def
      zrange_def cache_order_def range_by_rank_nat
    by simp
  have res: "redis_GetRankingsAroundUser False False t s lid uid cnt so
               = Inr (ranked_from t (int (i - ?h) + 1) ?w)"
    unfolding redis_GetRankingsAroundUser_def redis_GetRank_index Some
    by (simp only: half start stop rng Let_def option.case sum.case) simp
  from index_of_nth[OF Some]
  have i: "i < length (cache_order so ?z)" and "map snd (cache_order so ?z) ! i = uid"
    by simp_all
  then have u: "snd (cache_order so ?z ! i) = uid"
    by (simp add: nth_map)
  have len: "length ?w = min (length (cache_order so ?z)) (Suc (i + ?h)) - (i - ?h)"
    by simp
  have pos: "min i ?h < length ?w"
    unfolding len using i by arith
  have sum_i: "i - ?h + min i ?h = i" by arith
  have "i - ?h \<le> length (take (Suc (i + ?h)) (cache_order so ?z))"
    using i by simp arith
  then have "?w ! min i ?h = take (Suc (i + ?h)) (cache_order so ?z) ! (i - ?h + min i ?h)"
    by (rule nth_drop)
  also have "\<dots> = cache_order so ?z ! i"
    unfolding sum_i by (rule nth_take) simp
  finally have at: "?w ! min i ?h = cache_order so ?z ! i" .
  have rank: "int (i - ?h) + 1 + int (min i ?h) = int i + 1"
    by arith
  let ?entries = "ranked_from t (int (i - ?h) + 1) ?w"
  have ent: "?entries ! min i ?h
               = \<lparr>re_UserID = snd (?w ! min i ?h),
                  re_Score = int64_of_float64 (fst (?w ! min i ?h)),
                  re_Rank = int (i - ?h) + 1 + int (min i ?h), re_UpdatedAt = t\<rparr>"
    using pos by (rule ranked_from_nth)
  have c1: "redis_GetRankingsAroundUser False False t s lid uid cnt so = Inr ?entries"
    by (rule res)
  have c2: "length ?entries = min (length (cache_order so ?z)) (Suc (i + ?h)) - (i - ?h)"
    by (simp only: length_ranked_from len)
  have c3: "?h \<le> i \<and> i + ?h < length (cache_order so ?z) \<longrightarrow> length ?entries = 2 * ?h + 1"
    unfolding c2 by arith
  have c4: "min i ?h < length ?entries"
    using pos by (simp only: length_ranked_from)
  have c5: "re_UserID (?entries ! min i ?h) = uid"
    by (simp only: ent at u RankingEntry.simps)
  have c6: "re_Rank (?entries ! min i ?h) = int i + 1"
    by (simp only: ent rank RankingEntry.simps)
  from c1 c2 c3 c4 c5 c6 show ?thesis
    unfolding Some option.case Let_def by blast
qed

theorem GetRankingsAroundUser_window_witness:
  "(0::int) \<le> 3 \<and>
   redis_GetRankingsAroundUser False False 7 five_cached ''L'' ''u3'' 3 SortOrderDesc
     = Inr [\<lparr>re_UserID = ''u4'', re_Score = 40, re_Rank = 2, re_UpdatedAt = 7\<rparr>,
            \<lparr>re_UserID = ''u3'', re_Score = 30, re_Rank = 3, re_UpdatedAt = 7\<rparr>,
            \<lparr>re_UserID = ''u2'', re_Score = 20, re_Rank = 4, re_UpdatedAt = 7\<rparr>]"
proof -
  have h: "(0::int) \<le> 3" by simp
  from GetRankingsAroundUser_window[OF h, where uid = "''u3''" and so = SortOrderDesc
      and s = five_cached and lid = "''L''" and t = 7]
  show ?thesis
    by (simp add: five_cached_def cache_order_def store_def GetRedisKey_def
        RedisKeyLeaderboard_def SortOrderDesc_def int64_of_float64_def Let_def)
qed

text \<open>
  C4 as stated fails: with five users and count 4, the user of rank 3 has two entries on
  each side and gets five entries, not four.
\<close>

theorem GetRankingsAroundUser_even_count_counterexample:
  "redis_GetRank False five_cached ''L'' ''u3'' SortOrderDesc = Inr 3
   \<and> length (zsets five_cached ''leaderboard:L'') = 5
   \<and> map_sum id length
        (redis_GetRankingsAroundUser False False 7 five_cached ''L'' ''u3'' 4 SortOrderDesc)
      = Inr 5"
  by (simp add: five_cached_def run_defs redis_GetRankingsAroundUser_def half_of_def
      client_ZRevRangeWithScores_def client_ZRangeWithScores_def zrevrange_def zrange_def
      range_by_rank_def)

section \<open>Reading a page of the rankings\<close>

lemma rankings_loop_taking:
  "offset \<le> i \<Longrightarrow> int (length acc) < limit \<Longrightarrow>
     rankings_loop i rs offset limit acc
       = acc @ history_entries (i + 1) (take (nat (limit - int (length acc))) rs)"
proof (induction rs arbitrary: i acc)
  case Nil
  then show ?case by simp
next
  case (Cons r rs)
  show ?case
  proof (cases "int (length acc) + 1 \<ge> limit")
    case True
    with Cons.prems have "nat (limit - int (length acc)) = Suc 0" by linarith
    with Cons.prems True show ?thesis by (simp add: Let_def)
  next
    case False
    with Cons.prems have n: "nat (limit - int (length acc)) = Suc (nat (limit - int (length acc) - 1))"
      by linarith
    have "rankings_loop (i + 1) rs offset limit
            (acc @ [\<lparr>re_UserID = sr_UserID r, re_Score = sr_Score r, re_Rank = i + 1,
                     re_UpdatedAt = sr_SubmittedAt r\<rparr>])
          = (acc @ [\<lparr>re_UserID = sr_UserID r, re_Score = sr_Score r, re_Rank = i + 1,
                     re_UpdatedAt = sr_SubmittedAt r\<rparr>])
            @ history_entries (i + 1 + 1) (take (nat (limit - int (length (acc @ [\<lparr>re_UserID = sr_UserID r, re_Score = sr_Score r, re_Rank = i + 1,
                     re_UpdatedAt = sr_SubmittedAt r\<rparr>])))) rs)"
      using Cons.prems False by (intro Cons.IH) auto
    with Cons.prems False n show ?thesis
      by (simp add: Let_def algebra_simps)
  qed
qed

lemma rankings_loop_skipping:
  "0 \<le> i \<Longrightarrow> i \<le> offset \<Longrightarrow> 0 < limit \<Longrightarrow>
     rankings_loop i rs offset limit []
       = history_entries (offset + 1) (take (nat limit) (drop (nat (offset - i)) rs))"
proof (induction rs arbitrary: i)
  case Nil
  then show ?case by simp
next
  case (Cons r rs)
  show ?case
  proof (cases "i < offset")
    case True
    with Cons.prems have "nat (offset - i) = Suc (nat (offset - (i + 1)))" by linarith
    moreover have "rankings_loop (i + 1) rs offset limit []
        = history_entries (offset + 1) (take (nat limit) (drop (nat (offset - (i + 1))) rs))"
      using Cons.prems True by (intro Cons.IH) auto
    ultimately show ?thesis using True by simp
  next
    case False
    with Cons.prems have eq: "i = offset" by simp
    have "rankings_loop i (r # rs) offset limit []
            = [] @ history_entries (i + 1) (take (nat (limit - int (length ([]::RankingEntry list)))) (r # rs))"
      using Cons.prems eq by (intro rankings_loop_taking) auto
    with eq show ?thesis by simp
  qed
qed

lemma GetTopScores_only_history:
  "score_records s' = score_records s \<Longrightarrow>
     mongodb_GetTopScores f sw s' lid limit so = mongodb_GetTopScores f sw s lid limit so"
  by (simp add: mongodb_GetTopScores_def)

lemma GetLeaderboard_other_zsets:
  "GetLeaderboard e (s\<lparr>zsets := z\<rparr>) lid
     = (fst (GetLeaderboard e s lid), (snd (GetLeaderboard e s lid))\<lparr>zsets := z\<rparr>)"
  by (simp add: GetLeaderboard_def redis_GetLeaderboardConfig_def mongodb_GetLeaderboard_def
      redis_SetLeaderboardConfig_def Let_def split: sum.splits option.splits)

lemma query_offset_nonneg: "0 \<le> query_offset q"
  by (simp add: query_offset_def split: option.splits)

lemma query_limit_pos: "0 < query_limit q"
  by (simp add: query_limit_def Let_def split: option.splits)

lemma GetRankings_paged:
  assumes "offset > 0" "limit > 0" "GetLeaderboard e s lid = (Inr lb, s1)"
  shows "GetRankings e s lid limit offset =
           (case mongodb_GetTopScores (fails e Aggregate) (swapped e) s lid
                   (wrap64 (limit + offset)) (lb_SortOrder lb) of
              Inl err \<Rightarrow> (Inl (Wrapped GetDataFailed err), s1)
            | Inr records \<Rightarrow>
                (Inr (history_entries (offset + 1) (take (nat limit) (drop (nat offset) records))),
                 s1))"
proof -
  have r: "score_records s1 = score_records s"
    using GetLeaderboard_records[of e s lid] assms(3) by simp
  have l: "\<And>records. rankings_loop 0 records offset limit []
        = history_entries (offset + 1) (take (nat limit) (drop (nat (offset - 0)) records))"
    using assms(1,2) by (intro rankings_loop_skipping) auto
  show ?thesis
    using assms
    by (simp add: GetRankings_def GetTopScores_only_history[OF r] l Let_def split: sum.splits)
qed

text \<open>
  A request for the rankings whose offset, as the handler passes it on, is not 0 is
  answered from the score history: the service asks the history for its top
  \<open>limit + offset\<close> latest records, skips the first \<open>offset\<close> of them and ranks the
  following ones \<open>offset + 1\<close>, \<open>offset + 2\<close>, and so on in the order the history
  returned them, whatever that order is. No sorted set is changed, and the answer is the
  same whatever the sorted sets hold.
\<close>

lemma Get_nonzero_offset:
  assumes "query_offset offsetQuery \<noteq> 0"
      and "leaderboardID \<noteq> []"
      and "GetLeaderboard e1 s leaderboardID = (Inr lb1, s1)"
      and "GetLeaderboard e2 s1 leaderboardID = (Inr lb, s2)"
  shows "Get e1 e2 s leaderboardID limitQuery offsetQuery =
           (case mongodb_GetTopScores (fails e2 Aggregate) (swapped e2) s leaderboardID
                   (wrap64 (query_limit limitQuery + query_offset offsetQuery))
                   (lb_SortOrder lb) of
              Inl err \<Rightarrow> ((500, GetFailed (Wrapped GetDataFailed err)), s2)
            | Inr records \<Rightarrow>
                ((200, GetOK lb1
                         (history_entries (query_offset offsetQuery + 1)
                            (take (nat (query_limit limitQuery))
                               (drop (nat (query_offset offsetQuery)) records)))
                         (query_limit limitQuery) (query_offset offsetQuery)), s2))
       \<and> zsets s2 = zsets s
       \<and> (\<forall>z. fst (Get e1 e2 (s\<lparr>zsets := z\<rparr>) leaderboardID limitQuery offsetQuery)
                = fst (Get e1 e2 s leaderboardID limitQuery offsetQuery))"
proof -
  have off: "query_offset offsetQuery > 0"
    using assms(1) query_offset_nonneg[of offsetQuery] by linarith
  have lim: "query_limit limitQuery > 0"
    by (rule query_limit_pos)
  have r1: "score_records s1 = score_records s"
    using GetLeaderboard_records[of e1 s leaderboardID] assms(3) by simp
  have z1: "zsets s1 = zsets s"
    using GetLeaderboard_zsets[of e1 s leaderboardID] assms(3) by simp
  have z2: "zsets s2 = zsets s1"
    using GetLeaderboard_zsets[of e2 s1 leaderboardID] assms(4) by simp
  have main: "\<And>st t1 t2. GetLeaderboard e1 st leaderboardID = (Inr lb1, t1) \<Longrightarrow>
      GetLeaderboard e2 t1 leaderboardID = (Inr lb, t2) \<Longrightarrow> score_records st = score_records s \<Longrightarrow>
      Get e1 e2 st leaderboardID limitQuery offsetQuery =
           (case mongodb_GetTopScores (fails e2 Aggregate) (swapped e2) s leaderboardID
                   (wrap64 (query_limit limitQuery + query_offset offsetQuery))
                   (lb_SortOrder lb) of
              Inl err \<Rightarrow> ((500, GetFailed (Wrapped GetDataFailed err)), t2)
            | Inr records \<Rightarrow>
                ((200, GetOK lb1
                         (history_entries (query_offset offsetQuery + 1)
                            (take (nat (query_limit limitQuery))
                               (drop (nat (query_offset offsetQuery)) records)))
                         (query_limit limitQuery) (query_offset offsetQuery)), t2))"
  proof -
    fix st t1 t2
    assume a: "GetLeaderboard e1 st leaderboardID = (Inr lb1, t1)"
       and b: "GetLeaderboard e2 t1 leaderboardID = (Inr lb, t2)"
       and c: "score_records st = score_records s"
    have "score_records t1 = score_records s"
      using GetLeaderboard_records[of e1 st leaderboardID] a c by simp
    then have t: "\<And>f sw l so. mongodb_GetTopScores f sw t1 leaderboardID l so
                    = mongodb_GetTopScores f sw s leaderboardID l so"
      by (rule GetTopScores_only_history)
    show "Get e1 e2 st leaderboardID limitQuery offsetQuery =
           (case mongodb_GetTopScores (fails e2 Aggregate) (swapped e2) s leaderboardID
                   (wrap64 (query_limit limitQuery + query_offset offsetQuery))
                   (lb_SortOrder lb) of
              Inl err \<Rightarrow> ((500, GetFailed (Wrapped GetDataFailed err)), t2)
            | Inr records \<Rightarrow>
                ((200, GetOK lb1
                         (history_entries (query_offset offsetQuery + 1)
                            (take (nat (query_limit limitQuery))
                               (drop (nat (query_offset offsetQuery)) records)))
                         (query_limit limitQuery) (query_offset offsetQuery)), t2))"
      using assms(2) a
      by (simp add: Get_def Let_def GetRankings_paged[OF off lim b] t split: sum.splits)
  qed
  have first: "Get e1 e2 s leaderboardID limitQuery offsetQuery =
           (case mongodb_GetTopScores (fails e2 Aggregate) (swapped e2) s leaderboardID
                   (wrap64 (query_limit limitQuery + query_offset offsetQuery))
                   (lb_SortOrder lb) of
              Inl err \<Rightarrow> ((500, GetFailed (Wrapped GetDataFailed err)), s2)
            | Inr records \<Rightarrow>
                ((200, GetOK lb1
                         (history_entries (query_offset offsetQuery + 1)
                            (take (nat (query_limit limitQuery))
                               (drop (nat (query_offset offsetQuery)) records)))
                         (query_limit limitQuery) (query_offset offsetQuery)), s2))"
    by (rule main[OF assms(3) assms(4) refl])
  have indep: "fst (Get e1 e2 (s\<lparr>zsets := z\<rparr>) leaderboardID limitQuery offsetQuery)
                = fst (Get e1 e2 s leaderboardID limitQuery offsetQuery)" for z
  proof -
    have a: "GetLeaderboard e1 (s\<lparr>zsets := z\<rparr>) leaderboardID = (Inr lb1, s1\<lparr>zsets := z\<rparr>)"
      using assms(3) by (simp add: GetLeaderboard_other_zsets)
    have b: "GetLeaderboard e2 (s1\<lparr>zsets := z\<rparr>) leaderboardID = (Inr lb, s2\<lparr>zsets := z\<rparr>)"
      using assms(4) by (simp add: GetLeaderboard_other_zsets)
    have c: "score_records (s\<lparr>zsets := z\<rparr>) = score_records s" by simp
    show ?thesis
      unfolding main[OF a b c] first by (simp split: sum.splits)
  qed
  from first z1 z2 indep show ?thesis by simp
qed

lemma Get_nonzero_offset_example:
  "query_offset (Some 1) \<noteq> 0 \<and> ''L'' \<noteq> []
   \<and> GetLeaderboard quiet three_recorded ''L'' = (Inr (board_L 10), three_recorded)
   \<and> fst (Get quiet quiet three_recorded ''L'' (Some 2) (Some 1))
       = (200, GetOK (board_L 10)
                 [\<lparr>re_UserID = ''u2'', re_Score = 200, re_Rank = 2, re_UpdatedAt = 2\<rparr>,
                  \<lparr>re_UserID = ''u3'', re_Score = 100, re_Rank = 3, re_UpdatedAt = 1\<rparr>] 2 1)"
proof -
  have h1: "query_offset (Some 1) \<noteq> 0" by (simp add: query_offset_def)
  have h2: "''L'' \<noteq> []" by simp
  have h3: "GetLeaderboard quiet three_recorded ''L'' = (Inr (board_L 10), three_recorded)"
    by (simp add: three_recorded_def GetLeaderboard_store quiet_def)
  have top3: "mongodb_GetTopScores False (\<lambda>st. False) three_recorded ''L'' 3 SortOrderDesc
               = Inr [history_record ''u1'' 300 3, history_record ''u2'' 200 2,
                      history_record ''u3'' 100 1]"
    by (simp add: three_recorded_def run_defs)
  from Get_nonzero_offset[OF h1 h2 h3 h3, of "Some 2"] top3 h1 h2 h3 show ?thesis
    by (simp add: query_limit_def query_offset_def wrap64_def quiet_def board_L_def
        history_record_def)
qed

lemma sorted_map_fst: "sorted (map f xs) \<Longrightarrow> sorted (map (\<lambda>x. fst (f x)) xs)"
  by (induction xs) (auto simp add: less_eq_prod_def)

text \<open>
  When the keys of its final sort arrive with the score first, the history returns its
  records in the order of the scores, and so is the page made of them.
\<close>

lemma GetTopScores_in_score_order:
  assumes "\<not> sw FinalSort" and "mongodb_GetTopScores False sw s lid limit so = Inr recs"
  shows "sorted (map (\<lambda>r. (if so = SortOrderAsc then 1 else - 1) * sr_Score r) recs)"
proof -
  let ?v = "if so = SortOrderAsc then 1 else - 1 :: int"
  let ?g = "group_first [] (sort_user_submitted (sw LatestSort)
              (filter (\<lambda>r. sr_LeaderboardID r = lid) (score_records s)))"
  let ?sorted = "sort_key (\<lambda>r. (?v * sr_Score r, - int (sr_SubmittedAt r))) ?g"
  have "sorted (map (\<lambda>r. (?v * sr_Score r, - int (sr_SubmittedAt r))) ?sorted)"
    by (rule sorted_sort_key)
  then have a: "sorted (map (\<lambda>r. ?v * sr_Score r) ?sorted)"
    using sorted_map_fst[of "\<lambda>r. (?v * sr_Score r, - int (sr_SubmittedAt r))" ?sorted] by simp
  then have b: "sorted (map (\<lambda>r. ?v * sr_Score r) (take (nat limit) ?sorted))"
    unfolding take_map[symmetric] by (rule sorted_wrt_take)
  from assms have "recs = (if limit > 0 then take (nat limit) ?sorted else ?sorted)"
    by (simp add: mongodb_GetTopScores_def sort_score_submitted_def Let_def)
  with a b show ?thesis by (cases "limit > 0") simp_all
qed

lemma history_entries_scores: "map re_Score (history_entries k rs) = map sr_Score rs"
  by (induction rs arbitrary: k) simp_all

lemma in_score_order_history_entries:
  assumes "sorted (map (\<lambda>r. (if so = SortOrderAsc then 1 else - 1) * sr_Score r) rs)"
      and "so = SortOrderAsc \<or> so = SortOrderDesc"
  shows "in_score_order so (history_entries k rs)"
proof -
  from assms(1)
  have "sorted_wrt (\<lambda>a b. (if so = SortOrderAsc then 1 else - 1) * a
                          \<le> (if so = SortOrderAsc then 1 else - 1) * b) (map sr_Score rs)"
    by (simp add: sorted_wrt_map sorted_map)
  then have "sorted_wrt (\<lambda>a b. \<not> outranks so b a) (map sr_Score rs)"
    using assms(2)
    by (rule_tac sorted_wrt_mono_rel)
      (auto simp add: outranks_def SortOrderAsc_def SortOrderDesc_def split: if_splits)
  then have "sorted_wrt (\<lambda>a b. \<not> outranks so b a) (map re_Score (history_entries k rs))"
    by (simp only: history_entries_scores)
  then show ?thesis
    by (simp add: in_score_order_def sorted_wrt_map)
qed

lemma sorted_page:
  "sorted (map f rs) \<Longrightarrow> sorted (map f (take n (drop m rs)))"
proof -
  assume "sorted (map f rs)"
  then have "sorted (drop m (map f rs))" by (rule sorted_wrt_drop)
  then have "sorted (take n (drop m (map f rs)))" by (rule sorted_wrt_take)
  then show ?thesis by (simp add: take_map drop_map)
qed

lemma Get_page_in_score_order:
  assumes "query_offset offsetQuery \<noteq> 0"
      and "leaderboardID \<noteq> []"
      and "GetLeaderboard e1 s leaderboardID = (Inr lb1, s1)"
      and "GetLeaderboard e2 s1 leaderboardID = (Inr lb, s2)"
      and "\<not> fails e2 Aggregate"
      and "\<not> swapped e2 FinalSort"
      and "lb_SortOrder lb = SortOrderAsc \<or> lb_SortOrder lb = SortOrderDesc"
  shows "\<exists>entries.
           fst (Get e1 e2 s leaderboardID limitQuery offsetQuery)
             = (200, GetOK lb1 entries (query_limit limitQuery) (query_offset offsetQuery))
         \<and> in_score_order (lb_SortOrder lb) entries"
proof -
  obtain recs where t: "mongodb_GetTopScores False (swapped e2) s leaderboardID
        (wrap64 (query_limit limitQuery + query_offset offsetQuery)) (lb_SortOrder lb) = Inr recs"
    by (simp add: mongodb_GetTopScores_def Let_def)
  have "sorted (map (\<lambda>r. (if lb_SortOrder lb = SortOrderAsc then 1 else - 1) * sr_Score r) recs)"
    using assms(6) t by (rule GetTopScores_in_score_order)
  then have "sorted (map (\<lambda>r. (if lb_SortOrder lb = SortOrderAsc then 1 else - 1) * sr_Score r)
               (take (nat (query_limit limitQuery)) (drop (nat (query_offset offsetQuery)) recs)))"
    by (rule sorted_page)
  then have o: "in_score_order (lb_SortOrder lb)
      (history_entries (query_offset offsetQuery + 1)
         (take (nat (query_limit limitQuery)) (drop (nat (query_offset offsetQuery)) recs)))"
    using assms(7) by (rule in_score_order_history_entries)
  have "fst (Get e1 e2 s leaderboardID limitQuery offsetQuery)
          = (200, GetOK lb1
                    (history_entries (query_offset offsetQuery + 1)
                       (take (nat (query_limit limitQuery))
                          (drop (nat (query_offset offsetQuery)) recs)))
                    (query_limit limitQuery) (query_offset offsetQuery))"
    using Get_nonzero_offset[OF assms(1-4), of limitQuery] t assms(5) by simp
  with o show ?thesis by blast
qed

text \<open>
  C8 fails on the code: the entries of a page are not always in sorted order. On a
  descending leaderboard whose history holds \<open>u1\<close> with 300, \<open>u2\<close> with 200 and
  \<open>u3\<close> with 100, submitted in this order, a request with limit 2 and offset 1 whose
  final sort has the submission time as first key is answered from the history with
  \<open>u2\<close>, score 200, at rank 2 followed by \<open>u1\<close>, score 300, at rank 3. The same
  request whose final sort has the score as first key is answered with \<open>u2\<close> at rank 2
  and \<open>u3\<close> at rank 3.
\<close>

theorem Get_page_out_of_score_order:
  "fst (Get quiet keys_swapped rising_times ''L'' (Some 2) (Some 1))
     = (200, GetOK (board_L 10)
               [\<lparr>re_UserID = ''u2'', re_Score = 200, re_Rank = 2, re_UpdatedAt = 2\<rparr>,
                \<lparr>re_UserID = ''u1'', re_Score = 300, re_Rank = 3, re_UpdatedAt = 1\<rparr>] 2 1)
   \<and> \<not> in_score_order SortOrderDesc
        [\<lparr>re_UserID = ''u2'', re_Score = 200, re_Rank = 2, re_UpdatedAt = 2\<rparr>,
         \<lparr>re_UserID = ''u1'', re_Score = 300, re_Rank = 3, re_UpdatedAt = 1\<rparr>]
   \<and> fst (Get quiet quiet rising_times ''L'' (Some 2) (Some 1))
     = (200, GetOK (board_L 10)
               [\<lparr>re_UserID = ''u2'', re_Score = 200, re_Rank = 2, re_UpdatedAt = 2\<rparr>,
                \<lparr>re_UserID = ''u3'', re_Score = 100, re_Rank = 3, re_UpdatedAt = 3\<rparr>] 2 1)"
  by (simp add: rising_times_def run_defs keys_swapped_def Get_def GetRankings_def
      query_limit_def query_offset_def wrap64_def in_score_order_def outranks_def)

section \<open>Rebuilding the cache from the history\<close>


lemma int64_of_float64_top: "int64_of_float64 (float64_of_int64 (2 ^ 63 - 1)) = - (2 ^ 63)"
  by code_simp

lemma group_first_not_seen: "r \<in> set (group_first seen xs) \<Longrightarrow> sr_UserID r \<notin> set seen"
proof (induction xs arbitrary: seen)
  case Nil
  then show ?case by simp
next
  case (Cons x xs)
  show ?case
    using Cons.prems Cons.IH[of seen] Cons.IH[of "sr_UserID x # seen"]
    by (auto split: if_splits)
qed


lemma group_first_distinct: "distinct (map sr_UserID (group_first seen xs))"
proof (induction xs arbitrary: seen)
  case Nil
  then show ?case by simp
next
  case (Cons x xs)
  have "\<forall>r \<in> set (group_first (sr_UserID x # seen) xs). sr_UserID r \<noteq> sr_UserID x"
    using group_first_not_seen by force
  then show ?case
    using Cons.IH by (auto split: if_splits)
qed









lemma mset_sort_score_submitted: "mset (sort_score_submitted sw v xs) = mset xs"
  by (simp add: sort_score_submitted_def)




lemma GetTopScores_distinct:
  assumes "mongodb_GetTopScores False sw s lid limit so = Inr recs"
  shows "distinct (map sr_UserID recs)"
proof -
  let ?m = "filter (\<lambda>r. sr_LeaderboardID r = lid) (score_records s)"
  let ?g = "group_first [] (sort_user_submitted (sw LatestSort) ?m)"
  let ?sorted = "sort_score_submitted (sw FinalSort) (if so = SortOrderAsc then 1 else - 1) ?g"
  have "mset (map sr_UserID ?sorted) = mset (map sr_UserID ?g)"
    by (simp add: mset_sort_score_submitted)
  then have "distinct (map sr_UserID ?sorted) = distinct (map sr_UserID ?g)"
    by (rule mset_eq_imp_distinct_iff)
  then have d: "distinct (map sr_UserID ?sorted)"
    by (simp add: group_first_distinct)
  then have "distinct (map sr_UserID (take (nat limit) ?sorted))"
    by (simp add: take_map[symmetric] distinct_take del: take_map)
  with d assms show ?thesis
    by (auto simp add: mongodb_GetTopScores_def Let_def split: if_splits)
qed







lemma map_assign_new: "k \<notin> fst ` set ps \<Longrightarrow> map_assign k v ps = ps @ [(k, v)]"
  by (induction ps) auto

lemma fold_map_assign_distinct:
  "distinct (map sr_UserID rs) \<Longrightarrow> sr_UserID ` set rs \<inter> fst ` set acc = {} \<Longrightarrow>
     fold (\<lambda>record scores. map_assign (sr_UserID record) (sr_Score record) scores) rs acc
       = acc @ map (\<lambda>r. (sr_UserID r, sr_Score r)) rs"
proof (induction rs arbitrary: acc)
  case Nil
  then show ?case by simp
next
  case (Cons r rs)
  from Cons.prems have new: "sr_UserID r \<notin> fst ` set acc" by auto
  have "sr_UserID ` set rs \<inter> fst ` set (acc @ [(sr_UserID r, sr_Score r)]) = {}"
    using Cons.prems by auto
  moreover from Cons.prems have "distinct (map sr_UserID rs)" by simp
  ultimately have "fold (\<lambda>record scores. map_assign (sr_UserID record) (sr_Score record) scores) rs
            (acc @ [(sr_UserID r, sr_Score r)])
          = (acc @ [(sr_UserID r, sr_Score r)]) @ map (\<lambda>r. (sr_UserID r, sr_Score r)) rs"
    by (intro Cons.IH)
  with new show ?case
    by (simp add: map_assign_new)
qed

lemma GetTopScores_no_fault:
  "mongodb_GetTopScores f sw s lid l so = Inr x \<Longrightarrow> mongodb_GetTopScores False sw s lid l so = Inr x"
  by (simp add: mongodb_GetTopScores_def Let_def split: if_splits)

lemma rebuild_locked_success:
  assumes "fst (rebuild_locked e s lb lid) = Inr ()" and "map_order e [] = []"
  shows "\<exists>recs. mongodb_GetTopScores False (swapped e) s lid (lb_MaxEntries lb) (lb_SortOrder lb)
                  = Inr recs
              \<and> zsets (snd (rebuild_locked e s lb lid)) (GetRedisKey RedisKeyLeaderboard lid)
                  = zadd_all (map_order e
                      (fold (\<lambda>record scores.
                               map_assign (sr_UserID record) (sr_Score record) scores) recs []))
                      []"
proof (cases "fails e ClearDel")
  case True
  with assms(1) show ?thesis
    by (simp add: rebuild_locked_def redis_ClearLeaderboard_def Let_def)
next
  case False
  let ?key = "GetRedisKey RedisKeyLeaderboard lid"
  let ?s1 = "s\<lparr>zsets := (zsets s)(?key := [])\<rparr>"
  have clear: "redis_ClearLeaderboard (fails e ClearDel) s lid = (Inr (), ?s1)"
    using False by (simp add: redis_ClearLeaderboard_def Let_def)
  have same: "mongodb_GetTopScores (fails e Aggregate) (swapped e) ?s1 lid (lb_MaxEntries lb)
                (lb_SortOrder lb)
              = mongodb_GetTopScores (fails e Aggregate) (swapped e) s lid (lb_MaxEntries lb)
                (lb_SortOrder lb)"
    by (rule GetTopScores_only_history) simp
  show ?thesis
  proof (cases "mongodb_GetTopScores (fails e Aggregate) (swapped e) s lid (lb_MaxEntries lb)
                  (lb_SortOrder lb)")
    case (Inl err)
    with assms(1) clear same show ?thesis
      by (simp add: rebuild_locked_def)
  next
    case (Inr recs)
    let ?scores = "fold (\<lambda>record scores. map_assign (sr_UserID record) (sr_Score record) scores)
                     recs []"
    have nf: "mongodb_GetTopScores False (swapped e) s lid (lb_MaxEntries lb) (lb_SortOrder lb)
                = Inr recs"
      using Inr by (rule GetTopScores_no_fault)
    show ?thesis
    proof (cases "length ?scores > 0")
      case True
      with assms(1) clear same Inr have "\<not> fails e PipeExec"
        by (auto simp add: rebuild_locked_def redis_BatchSetScores_def Let_def)
      with True clear same Inr
      have "zsets (snd (rebuild_locked e s lb lid)) ?key = zadd_all (map_order e ?scores) []"
        by (simp add: rebuild_locked_def redis_BatchSetScores_def zadd_all_def Let_def)
      with nf show ?thesis by blast
    next
      case False
      then have "?scores = []" by simp
      with clear same Inr assms(2)
      have "zsets (snd (rebuild_locked e s lb lid)) ?key = zadd_all (map_order e ?scores) []"
        by (simp add: rebuild_locked_def zadd_all_def Let_def)
      with nf show ?thesis by blast
    qed
  qed
qed

lemma RebuildLeaderboard_success:
  assumes "GetLeaderboard e s lid = (Inr lb, s1)"
      and "fst (RebuildLeaderboard e s lid) = Inr ()"
      and "map_order e [] = []"
  shows "\<exists>recs. mongodb_GetTopScores False (swapped e) s lid (lb_MaxEntries lb) (lb_SortOrder lb)
                  = Inr recs
              \<and> zsets (snd (RebuildLeaderboard e s lid)) (GetRedisKey RedisKeyLeaderboard lid)
                  = zadd_all (map_order e
                      (fold (\<lambda>record scores.
                               map_assign (sr_UserID record) (sr_Score record) scores) recs []))
                      []"
proof -
  let ?lk = "GetRedisKey RedisKeyRankingLock lid"
  let ?s2 = "s1\<lparr>locks := (locks s1)(?lk := True)\<rparr>"
  have r1: "score_records s1 = score_records s"
    using GetLeaderboard_records[of e s lid] assms(1) by simp
  have acq: "redis_AcquireLock (fails e LockSetNX) s1 lid = (Inr True, ?s2)"
  proof (rule ccontr)
    assume "redis_AcquireLock (fails e LockSetNX) s1 lid \<noteq> (Inr True, ?s2)"
    then have "fst (RebuildLeaderboard e s lid) \<noteq> Inr ()"
      using assms(1)
      by (simp add: RebuildLeaderboard_def redis_AcquireLock_def Let_def split: if_splits)
    with assms(2) show False by simp
  qed
  obtain res s3 where rl: "rebuild_locked e ?s2 lb lid = (res, s3)"
    by (cases "rebuild_locked e ?s2 lb lid")
  have whole: "RebuildLeaderboard e s lid
                 = (res, snd (redis_ReleaseLock (fails e UnlockDel) s3 lid))"
    using assms(1) acq rl by (simp add: RebuildLeaderboard_def)
  with assms(2) rl have ok: "fst (rebuild_locked e ?s2 lb lid) = Inr ()" by simp
  have z: "zsets (snd (redis_ReleaseLock (fails e UnlockDel) s3 lid)) = zsets s3"
    by (simp add: redis_ReleaseLock_def Let_def)
  have same: "\<And>f sw l so. mongodb_GetTopScores f sw ?s2 lid l so
                = mongodb_GetTopScores f sw s lid l so"
    using r1 by (intro GetTopScores_only_history) simp
  from rebuild_locked_success[OF ok assms(3)] show ?thesis
    unfolding same whole using rl z by simp
qed

lemma rebuild_locked_records: "score_records (snd (rebuild_locked e s lb lid)) = score_records s"
  by (simp add: rebuild_locked_def redis_ClearLeaderboard_def redis_BatchSetScores_def
      mongodb_GetTopScores_def Let_def split: sum.splits)

lemma RebuildLeaderboard_records:
  "score_records (snd (RebuildLeaderboard e s lid)) = score_records s"
proof -
  obtain r s1 where g: "GetLeaderboard e s lid = (r, s1)"
    by (cases "GetLeaderboard e s lid")
  have r1: "score_records s1 = score_records s"
    using GetLeaderboard_records[of e s lid] g by simp
  show ?thesis
  proof (cases r)
    case (Inl err)
    with g r1 show ?thesis by (simp add: RebuildLeaderboard_def)
  next
    case (Inr lb)
    obtain a s2 where acq: "redis_AcquireLock (fails e LockSetNX) s1 lid = (a, s2)"
      by (cases "redis_AcquireLock (fails e LockSetNX) s1 lid")
    then have r2: "score_records s2 = score_records s1"
      by (auto simp add: redis_AcquireLock_def Let_def split: if_splits)
    have rel: "\<And>st. score_records (snd (redis_ReleaseLock (fails e UnlockDel) st lid))
                 = score_records st"
      by (simp add: redis_ReleaseLock_def Let_def)
    show ?thesis
      using g Inr acq r1 r2 rel rebuild_locked_records[of e s2 lb lid]
      by (auto simp add: RebuildLeaderboard_def split: sum.splits prod.splits)
  qed
qed


lemma set_zadd: "set (zadd m v z) = insert (v, m) {p \<in> set z. snd p \<noteq> m}"
  by (auto simp add: zadd_def set_insort_key)

lemma sorted_zadd: "sorted z \<Longrightarrow> sorted (zadd m v z)"
  by (simp add: zadd_def sorted_insort sorted_filter[where f = "\<lambda>x. x", simplified])

lemma distinct_members_zadd:
  "distinct (map snd z) \<Longrightarrow> distinct (map snd (zadd m v z))"
proof -
  assume d: "distinct (map snd z)"
  have "mset (map snd (zadd m v z)) = mset (map snd ((v, m) # filter (\<lambda>p. snd p \<noteq> m) z))"
    by (simp add: zadd_def)
  then have "distinct (map snd (zadd m v z))
               = distinct (map snd ((v, m) # filter (\<lambda>p. snd p \<noteq> m) z))"
    by (rule mset_eq_imp_distinct_iff)
  moreover have "distinct (map snd (filter (\<lambda>p. snd p \<noteq> m) z))"
    using d by (rule distinct_map_filter)
  ultimately show ?thesis by auto
qed

lemma zadd_all_invariant:
  "sorted z \<Longrightarrow> distinct (map snd z) \<Longrightarrow>
     sorted (zadd_all ps z) \<and> distinct (map snd (zadd_all ps z))"
proof (induction ps arbitrary: z)
  case Nil
  then show ?case by (simp add: zadd_all_def)
next
  case (Cons p ps)
  have "sorted (zadd (fst p) (float64_of_int64 (snd p)) z)"
    using Cons.prems(1) by (rule sorted_zadd)
  moreover have "distinct (map snd (zadd (fst p) (float64_of_int64 (snd p)) z))"
    using Cons.prems(2) by (rule distinct_members_zadd)
  ultimately show ?case
    using Cons.IH by (simp add: zadd_all_def)
qed

lemma set_zadd_all:
  "distinct (map fst ps) \<Longrightarrow>
     set (zadd_all ps z)
       = {q \<in> set z. snd q \<notin> fst ` set ps} \<union> (\<lambda>p. (float64_of_int64 (snd p), fst p)) ` set ps"
proof (induction ps arbitrary: z)
  case Nil
  then show ?case by (simp add: zadd_all_def)
next
  case (Cons p ps)
  from Cons.prems have d: "distinct (map fst ps)" and n: "fst p \<notin> fst ` set ps" by auto
  have "zadd_all (p # ps) z = zadd_all ps (zadd (fst p) (float64_of_int64 (snd p)) z)"
    by (simp add: zadd_all_def)
  then have "set (zadd_all (p # ps) z)
      = {q \<in> set (zadd (fst p) (float64_of_int64 (snd p)) z). snd q \<notin> fst ` set ps}
        \<union> (\<lambda>p. (float64_of_int64 (snd p), fst p)) ` set ps"
    using Cons.IH[OF d] by simp
  also have "\<dots> = {q \<in> set z. snd q \<notin> fst ` set (p # ps)}
        \<union> (\<lambda>p. (float64_of_int64 (snd p), fst p)) ` set (p # ps)"
  proof -
    have n': "a \<noteq> fst p" if "(a, b) \<in> set ps" for a b
    proof
      assume "a = fst p"
      with that have "fst p \<in> fst ` set ps" by (metis fst_conv imageI)
      with n show False by simp
    qed
    show ?thesis
      by (auto simp add: set_zadd dest: n')
  qed
  finally show ?case .
qed

lemma zadd_all_any_order:
  assumes "distinct (map fst ps)" and "mset qs = mset ps"
  shows "zadd_all qs [] = zadd_all ps []"
proof (rule sorted_distinct_set_unique)
  have dq: "distinct (map fst qs)"
  proof -
    from assms(2) have "mset (map fst qs) = mset (map fst ps)" by simp
    then have "distinct (map fst qs) = distinct (map fst ps)" by (rule mset_eq_imp_distinct_iff)
    with assms(1) show ?thesis by simp
  qed
  show "sorted (zadd_all qs [])" using zadd_all_invariant[of "[]" qs] by simp
  show "sorted (zadd_all ps [])" using zadd_all_invariant[of "[]" ps] by simp
  have "distinct (map snd (zadd_all qs []))" using zadd_all_invariant[of "[]" qs] by simp
  then show "distinct (zadd_all qs [])" by (simp add: distinct_map)
  have "distinct (map snd (zadd_all ps []))" using zadd_all_invariant[of "[]" ps] by simp
  then show "distinct (zadd_all ps [])" by (simp add: distinct_map)
  have "set qs = set ps" using assms(2) by (rule mset_eq_setD)
  then show "set (zadd_all qs []) = set (zadd_all ps [])"
    by (simp add: set_zadd_all[OF dq] set_zadd_all[OF assms(1)])
qed






text \<open>
  The order in which \<open>BatchSetScores\<close> goes through the map does not matter, and a
  second rebuild whose sort keys arrive in the same order as in the first leaves the
  sorted set as the first one made it.
\<close>

lemma Rebuild_again_same_sort_keys:
  assumes "GetLeaderboard e1 s lid = (Inr lb, s1)"
      and "fst (RebuildLeaderboard e1 s lid) = Inr ()"
      and "GetLeaderboard e2 (snd (RebuildLeaderboard e1 s lid)) lid = (Inr lb, s2)"
      and "fst (RebuildLeaderboard e2 (snd (RebuildLeaderboard e1 s lid)) lid) = Inr ()"
      and "\<forall>m. mset (map_order e1 m) = mset m"
      and "\<forall>m. mset (map_order e2 m) = mset m"
      and "swapped e2 = swapped e1"
  shows "zsets (snd (RebuildLeaderboard e2 (snd (RebuildLeaderboard e1 s lid)) lid))
           (GetRedisKey RedisKeyLeaderboard lid)
         = zsets (snd (RebuildLeaderboard e1 s lid)) (GetRedisKey RedisKeyLeaderboard lid)"
proof -
  let ?s' = "snd (RebuildLeaderboard e1 s lid)"
  let ?key = "GetRedisKey RedisKeyLeaderboard lid"
  from assms(5) have "mset (map_order e1 []) = mset []" by blast
  then have n1: "map_order e1 [] = []" by simp
  from assms(6) have "mset (map_order e2 []) = mset []" by blast
  then have n2: "map_order e2 [] = []" by simp
  obtain recs where t1: "mongodb_GetTopScores False (swapped e1) s lid (lb_MaxEntries lb)
        (lb_SortOrder lb) = Inr recs"
    and z1: "zsets ?s' ?key = zadd_all (map_order e1
               (fold (\<lambda>record scores. map_assign (sr_UserID record) (sr_Score record) scores)
                  recs [])) []"
    using RebuildLeaderboard_success[OF assms(1,2) n1] by blast
  obtain recs2 where t2: "mongodb_GetTopScores False (swapped e2) ?s' lid (lb_MaxEntries lb)
        (lb_SortOrder lb) = Inr recs2"
    and z2: "zsets (snd (RebuildLeaderboard e2 ?s' lid)) ?key = zadd_all (map_order e2
               (fold (\<lambda>record scores. map_assign (sr_UserID record) (sr_Score record) scores)
                  recs2 [])) []"
    using RebuildLeaderboard_success[OF assms(3,4) n2] by blast
  have "mongodb_GetTopScores False (swapped e2) ?s' lid (lb_MaxEntries lb) (lb_SortOrder lb)
          = mongodb_GetTopScores False (swapped e2) s lid (lb_MaxEntries lb) (lb_SortOrder lb)"
    by (rule GetTopScores_only_history) (rule RebuildLeaderboard_records)
  with t1 t2 assms(7) have same: "recs2 = recs" by simp
  let ?scores = "fold (\<lambda>record scores. map_assign (sr_UserID record) (sr_Score record) scores)
                   recs []"
  have d: "distinct (map sr_UserID recs)"
    using t1 by (rule GetTopScores_distinct)
  then have "?scores = map (\<lambda>r. (sr_UserID r, sr_Score r)) recs"
    using fold_map_assign_distinct[of recs "[]"] by simp
  with d have ds: "distinct (map fst ?scores)" by (simp add: comp_def)
  have "zadd_all (map_order e2 ?scores) [] = zadd_all ?scores []"
    using ds assms(6) by (intro zadd_all_any_order) auto
  moreover have "zadd_all (map_order e1 ?scores) [] = zadd_all ?scores []"
    using ds assms(5) by (intro zadd_all_any_order) auto
  ultimately show ?thesis
    using z1 z2 same by simp
qed

text \<open>
  C7 fails on the code: with room for one entry and two users, a rebuild whose final sort
  has the score as first key caches the user of the best score, and a second rebuild
  whose final sort has the submission time as first key caches the user who submitted
  last.
\<close>

theorem Rebuild_twice_differs:
  "fst (RebuildLeaderboard quiet capacity_one ''L'') = Inr ()
   \<and> zsets (snd (RebuildLeaderboard quiet capacity_one ''L'')) ''leaderboard:L''
       = [(200, ''u2'')]
   \<and> fst (RebuildLeaderboard keys_swapped
             (snd (RebuildLeaderboard quiet capacity_one ''L'')) ''L'') = Inr ()
   \<and> zsets (snd (RebuildLeaderboard keys_swapped
                   (snd (RebuildLeaderboard quiet capacity_one ''L'')) ''L'')) ''leaderboard:L''
       = [(100, ''u1'')]"
  by (simp add: capacity_one_def run_defs keys_swapped_def)

section \<open>The rank computed from the history\<close>

lemma grouped_document_never_matches:
  "\<not> matches ((''leaderboard_id'', c) # conds)
       [(''_id'', BString u), (''latest_score'', BInt64 v)]"
  by (simp add: matches_def)

lemma mongodb_GetUserRank_is_first:
  "mongodb_GetUserRank fail_find fail_aggregate swap s lid uid so = Inr k \<Longrightarrow> k = 1"
proof -
  assume a: "mongodb_GetUserRank fail_find fail_aggregate swap s lid uid so = Inr k"
  have none: "filter (matches ((''leaderboard_id'', c) # conds)) (group_latest_score rs) = []"
    for c conds rs
    by (simp add: group_latest_score_def filter_empty_conv grouped_document_never_matches)
  from a show ?thesis
    unfolding mongodb_GetUserRank_def Let_def none
    by (simp add: count_stage_def split: sum.splits option.splits if_splits)
qed

lemma mongodb_GetUserRank_no_record:
  "mongodb_GetUserScore fail_find s lid uid = Inr None \<Longrightarrow>
     mongodb_GetUserRank fail_find fail_aggregate swap s lid uid so = Inl NoScoreRecord"
  by (simp add: mongodb_GetUserRank_def)

text \<open>
  C1 fails on the code: \<open>u2\<close> holds 200 and \<open>u1\<close> holds 100 on a descending
  leaderboard, so the rank of \<open>u1\<close> in the words of the specification is 2, and
  \<open>GetUserRank\<close> of the repository returns 1. Its \<open>$match\<close> stage tests the fields
  \<open>leaderboard_id\<close> and \<open>score\<close>, which the documents of the \<open>$group\<close> stage before
  it do not have, so it never counts a user.
\<close>

theorem mongodb_GetUserRank_ignores_better_scores:
  "mongodb_GetUserRank False False (swapped quiet) two_recorded ''L'' ''u1'' SortOrderDesc
     = Inr 1
   \<and> rankOf_spec two_recorded ''L'' ''u1'' SortOrderDesc = Inr 2"
  by (simp add: two_recorded_def run_defs mongodb_GetUserRank_def group_latest_score_def
      matches_def count_stage_def rankOf_spec_def outranks_def)

end
